theory Spec2Isabelle
  imports Complex_Main
begin

section \<open>JavaScript values\<close>

text \<open>
  The source is \<^verbatim>\<open>src/lib/util/ast.js\<close>: the AST utilities (lines 1 to 341) and, after a
  separator line, the rule \<^verbatim>\<open>sort-prop-types\<close> (lines 343 to 629). Line numbers below are
  lines of that file.

  A \<^verbatim>\<open>TypeError\<close> thrown by the engine (a property read on \<^verbatim>\<open>undefined\<close>, a call of
  \<^verbatim>\<open>undefined\<close>) is the only exception the modelled code can raise; it is the left summand
  of every result type below.
\<close>

datatype js_error = TypeError

text \<open>\<^verbatim>\<open>xs[i]\<close>: the element, or \<^verbatim>\<open>undefined\<close> (\<open>None\<close>) out of range.\<close>

fun nth_opt :: "'a list \<Rightarrow> nat \<Rightarrow> 'a option" where
  "nth_opt [] i = None"
| "nth_opt (x # xs) 0 = Some x"
| "nth_opt (x # xs) (Suc i) = nth_opt xs i"

text \<open>
  Strings are lists of code units below 256 (ASCII and the Latin-1 supplement); a string
  with a code unit above is outside the model. \<^verbatim>\<open>a < b\<close> on two strings compares code
  units from the left, a proper prefix being smaller.
\<close>

fun js_string_lt :: "string \<Rightarrow> string \<Rightarrow> bool" where
  "js_string_lt [] [] = False"
| "js_string_lt [] (y # ys) = True"
| "js_string_lt (x # xs) [] = False"
| "js_string_lt (x # xs) (y # ys) =
     (if (of_char x :: nat) < of_char y then True
      else if (of_char y :: nat) < of_char x then False
      else js_string_lt xs ys)"

text \<open>The class \<^verbatim>\<open>[A-Z]\<close> of a regular expression.\<close>

definition is_upper :: "char \<Rightarrow> bool" where
  "is_upper c = (65 \<le> (of_char c :: nat) \<and> (of_char c :: nat) \<le> 90)"

text \<open>
  \<^verbatim>\<open>String.prototype.toLowerCase\<close> on one code unit below 256: the upper-case letters are
  \<^verbatim>\<open>A\<close> to \<^verbatim>\<open>Z\<close> (65 to 90) and, in the Latin-1 supplement, U+00C0 to U+00D6 and U+00D8
  to U+00DE (192 to 214 and 216 to 222, U+00D7 being the multiplication sign); each has its
  lower-case letter 32 above. No other code unit below 256 changes, and none depends on its
  neighbours.
\<close>

definition lower_char :: "char \<Rightarrow> char" where
  "lower_char c =
     (let n = (of_char c :: nat)
      in if (65 \<le> n \<and> n \<le> 90) \<or> (192 \<le> n \<and> n \<le> 214) \<or> (216 \<le> n \<and> n \<le> 222)
         then char_of (n + 32) else c)"

text \<open>
  Numbers: the value of a numeric literal is a finite rational or an infinity;
  \<^verbatim>\<open>NaN\<close> arises when a string that is no numeric literal is converted. \<^verbatim>\<open>a < b\<close> on two
  numbers is false as soon as one is \<^verbatim>\<open>NaN\<close>.
\<close>

datatype js_number = NaN | NegativeInfinity | Finite rat | PositiveInfinity

fun js_number_lt :: "js_number \<Rightarrow> js_number \<Rightarrow> bool" where
  "js_number_lt NaN b = False"
| "js_number_lt a NaN = False"
| "js_number_lt PositiveInfinity b = False"
| "js_number_lt a NegativeInfinity = False"
| "js_number_lt NegativeInfinity b = True"
| "js_number_lt a PositiveInfinity = True"
| "js_number_lt (Finite x) (Finite y) = (x < y)"

text \<open>
  The primitive values a key can be: a string or a number. The conversions between the two
  are the engine's (\<^verbatim>\<open>String(n)\<close> prints a number, \<^verbatim>\<open>Number(s)\<close> reads a string, with
  rounding); they are not recomputed here: a string carries the number the engine converts
  it to, and a number the string. Keys of another kind (a computed key that is a boolean, a
  regular expression, a big integer) are outside the model.
\<close>

datatype js_value = is_string: JString string js_number | JNumber js_number string

fun ToString :: "js_value \<Rightarrow> string" where
  "ToString (JString s n) = s"
| "ToString (JNumber n s) = s"

fun ToNumber :: "js_value \<Rightarrow> js_number" where
  "ToNumber (JString s n) = n"
| "ToNumber (JNumber n s) = n"

text \<open>Truthiness: the empty string, zero and \<^verbatim>\<open>NaN\<close> are falsy.\<close>

fun value_truthy :: "js_value \<Rightarrow> bool" where
  "value_truthy (JString s n) = (s \<noteq> [])"
| "value_truthy (JNumber n s) = (n \<noteq> Finite 0 \<and> n \<noteq> NaN)"

text \<open>
  \<^verbatim>\<open>a < b\<close> on two primitive values: two strings are compared as strings, any other pair as
  the numbers they convert to.
\<close>

fun js_lt :: "js_value \<Rightarrow> js_value \<Rightarrow> bool" where
  "js_lt (JString a m) (JString b n) = js_string_lt a b"
| "js_lt a b = js_number_lt (ToNumber a) (ToNumber b)"

section \<open>The rule sort-prop-types (lines 343 to 629)\<close>

subsection \<open>Options, declarations and reports\<close>

text \<open>The options of the rule (lines 395 to 400), each \<^verbatim>\<open>false\<close> when not configured.\<close>

record policy =
  requiredFirst :: bool
  callbacksLast :: bool
  ignoreCase :: bool
  noSortAlphabetically :: bool
  sortShapeProp :: bool

text \<open>
  A declaration node, reduced to what \<^verbatim>\<open>checkSorted\<close> reads of it:
  \<^item> \<open>did\<close>: the identity of the node object (reports carry the node itself);
  \<^item> \<open>dtype\<close>: \<^verbatim>\<open>node.type\<close>;
  \<^item> \<open>key_value\<close>: \<^verbatim>\<open>node.key.value\<close>, the string of a string literal key or the number of
    a numeric literal key; \<open>None\<close> when there is no \<^verbatim>\<open>node.key\<close> or the key has no
    \<^verbatim>\<open>value\<close> (an identifier);
  \<^item> \<open>key_text\<close>: what \<^verbatim>\<open>context.getSourceCode().getText(node.key || node.argument)\<close>
    returns, and \<open>key_text_number\<close>: the number the engine converts that text to;
  \<^item> \<open>value_property_name\<close>: \<^verbatim>\<open>node.value.property.name\<close>, \<open>None\<close> when
    \<^verbatim>\<open>node.value.property\<close> is absent or has no name.
\<close>

record decl =
  did :: nat
  dtype :: string
  key_value :: "js_value option"
  key_text :: string
  key_text_number :: js_number
  value_property_name :: "string option"

type_synonym report = "decl \<times> string"

definition REQUIRED_MESSAGE :: string where
  "REQUIRED_MESSAGE = ''Required prop types must be listed before all other prop types''"

definition CALLBACK_MESSAGE :: string where
  "CALLBACK_MESSAGE = ''Callback prop types must be listed after all other prop types''"

definition ALPHABETICAL_MESSAGE :: string where
  "ALPHABETICAL_MESSAGE = ''Prop types declarations should be sorted alphabetically''"

subsection \<open>The helpers of the rule (lines 402 to 429)\<close>

text \<open>
  \<^verbatim>\<open>getKey\<close> returns \<^verbatim>\<open>node.key.value\<close> as it is, a string or a number, when
  \<^verbatim>\<open>node.key && node.key.value\<close> is truthy, and the source text, a string, otherwise.
\<close>

definition getKey :: "decl \<Rightarrow> js_value" where
  "getKey node =
     (case key_value node of
        Some v \<Rightarrow>
          if value_truthy v then v else JString (key_text node) (key_text_number node)
      | None \<Rightarrow> JString (key_text node) (key_text_number node))"

definition getValueName :: "decl \<Rightarrow> string option" where
  "getValueName node = (if dtype node = ''Property'' then value_property_name node else None)"

text \<open>\<^verbatim>\<open>/^on[A-Z]/.test(propName)\<close>; \<^verbatim>\<open>test\<close> converts its argument to a string.\<close>

fun test_on_upper :: "string \<Rightarrow> bool" where
  "test_on_upper (a # b # c # rest) = (a = CHR ''o'' \<and> b = CHR ''n'' \<and> is_upper c)"
| "test_on_upper _ = False"

definition isCallbackPropName :: "js_value \<Rightarrow> bool" where
  "isCallbackPropName propName = test_on_upper (ToString propName)"

definition isRequiredProp :: "decl \<Rightarrow> bool" where
  "isRequiredProp node = (getValueName node = Some ''isRequired'')"

text \<open>\<^verbatim>\<open>String(item).toLowerCase()\<close>\<close>

definition toLowerCase :: "js_value \<Rightarrow> string" where
  "toLowerCase item = map lower_char (ToString item)"

subsection \<open>checkSorted (lines 436 to 515)\<close>

text \<open>
  The callback handed to \<^verbatim>\<open>declarations.reduce\<close> (lines 455 to 514). It returns the next accumulator (the
  baseline \<^verbatim>\<open>prev\<close> of the next call, \<open>None\<close> for \<^verbatim>\<open>undefined\<close>) and the reports it sent
  to \<^verbatim>\<open>context.report\<close>. Reading the key of an \<^verbatim>\<open>undefined\<close> accumulator throws.
  Under \<^verbatim>\<open>ignoreCase\<close> both names are replaced by their lower-cased strings before the
  comparison \<^verbatim>\<open>currentPropName < prevPropName\<close>, which then compares two strings;
  \<open>sortsBefore\<close> is the outcome of that comparison.
\<close>

definition reduce_callback ::
  "policy \<Rightarrow> decl option \<Rightarrow> decl \<Rightarrow> nat \<Rightarrow> decl list \<Rightarrow> js_error + (decl option \<times> report list)"
where
  "reduce_callback p prev cur idx decls =
     (if dtype cur = ''ExperimentalSpreadProperty'' \<or> dtype cur = ''SpreadElement''
      then Inr (nth_opt decls (idx + 1), [])
      else case prev of
        None \<Rightarrow> Inl TypeError
      | Some prv \<Rightarrow>
         (let prevPropName = getKey prv;
              currentPropName = getKey cur;
              previousIsRequired = isRequiredProp prv;
              currentIsRequired = isRequiredProp cur;
              previousIsCallback = isCallbackPropName prevPropName;
              currentIsCallback = isCallbackPropName currentPropName;
              sortsBefore =
                (if ignoreCase p
                 then js_string_lt (toLowerCase currentPropName) (toLowerCase prevPropName)
                 else js_lt currentPropName prevPropName)
          in if requiredFirst p \<and> previousIsRequired \<and> \<not> currentIsRequired
               then Inr (Some cur, [])
             else if requiredFirst p \<and> \<not> previousIsRequired \<and> currentIsRequired
               then Inr (Some cur, [(cur, REQUIRED_MESSAGE)])
             else if callbacksLast p \<and> \<not> previousIsCallback \<and> currentIsCallback
               then Inr (Some cur, [])
             else if callbacksLast p \<and> previousIsCallback \<and> \<not> currentIsCallback
               then Inr (Some prv, [(prv, CALLBACK_MESSAGE)])
             else if \<not> noSortAlphabetically p \<and> sortsBefore
               then Inr (Some prv, [(cur, ALPHABETICAL_MESSAGE)])
             else Inr (Some cur, [])))"

text \<open>
  \<^verbatim>\<open>Array.prototype.reduce\<close> with an initial value: the callback runs on every element from
  index 0, left to right; \<open>out\<close> collects the reports sent so far.
\<close>

fun reduce_loop ::
  "policy \<Rightarrow> decl list \<Rightarrow> decl option \<Rightarrow> report list \<Rightarrow> nat \<Rightarrow> decl list
     \<Rightarrow> js_error + (decl option \<times> report list)"
where
  "reduce_loop p decls prev out idx [] = Inr (prev, out)"
| "reduce_loop p decls prev out idx (cur # rest) =
     (case reduce_callback p prev cur idx decls of
        Inl e \<Rightarrow> Inl e
      | Inr (prev', new) \<Rightarrow> reduce_loop p decls prev' (out @ new) (Suc idx) rest)"

text \<open>
  \<^verbatim>\<open>checkSorted(declarations)\<close>; \<open>None\<close> is an \<^verbatim>\<open>undefined\<close> argument. The result is the
  list of reports in the order they were sent.
\<close>

definition checkSorted :: "policy \<Rightarrow> decl list option \<Rightarrow> js_error + report list" where
  "checkSorted p declarations =
     (case declarations of
        None \<Rightarrow> Inr []
      | Some decls \<Rightarrow>
         (case reduce_loop p decls (nth_opt decls 0) [] 0 decls of
            Inl e \<Rightarrow> Inl e
          | Inr (final, out) \<Rightarrow> Inr out))"

section \<open>The AST utilities (lines 1 to 341)\<close>

subsection \<open>Syntax nodes\<close>

text \<open>
  A node carries the identity of its object (\<open>nid\<close>, compared where the source compares
  references with \<^verbatim>\<open>===\<close>) and its chain of \<^verbatim>\<open>parent\<close> references, nearest first, each
  parent given by its identity and its \<^verbatim>\<open>type\<close>: that is all the source reads of a parent.
  A tree built by a parser is finite, so the chain is a list.

  The constructors are the node kinds whose children the source reads; \<open>Other\<close> is every
  remaining kind, with its \<^verbatim>\<open>type\<close>, its \<^verbatim>\<open>value\<close> and its \<^verbatim>\<open>body\<close> (a node, an array of
  nodes, or \<^verbatim>\<open>undefined\<close>) when it has them. The cases of a switch statement are given by
  their \<^verbatim>\<open>consequent\<close> arrays, \<open>None\<close> for a case without one.
\<close>

type_synonym ancestor = "nat \<times> string"

datatype fkind = FunctionDeclaration | FunctionExpression | ArrowFunctionExpression

datatype lkind = WhileStatement | DoWhileStatement | ForStatement | ForInStatement | ForOfStatement

datatype 'a field = Undefined | Obj 'a | Arr "'a list"

datatype node =
    ReturnStatement (nid: nat) (nparent: "ancestor list")
  | YieldExpression (nid: nat) (nparent: "ancestor list")
  | Function (nid: nat) (nparent: "ancestor list") fkind "node option" node
  | ExpressionStatement (nid: nat) (nparent: "ancestor list") node
  | IfStatement (nid: nat) (nparent: "ancestor list") node "node option"
  | Loop (nid: nat) (nparent: "ancestor list") lkind node
  | SwitchStatement (nid: nat) (nparent: "ancestor list") "node list option list"
  | BlockStatement (nid: nat) (nparent: "ancestor list") "node list"
  | Other (nid: nat) (nparent: "ancestor list") string "node option" "node field"

text \<open>The values the functions of this file return or pass around.\<close>

datatype jsval = JFalse | JNull | JNode node | JArr "jsval list"

fun fkind_name :: "fkind \<Rightarrow> string" where
  "fkind_name FunctionDeclaration = ''FunctionDeclaration''"
| "fkind_name FunctionExpression = ''FunctionExpression''"
| "fkind_name ArrowFunctionExpression = ''ArrowFunctionExpression''"

fun lkind_name :: "lkind \<Rightarrow> string" where
  "lkind_name WhileStatement = ''WhileStatement''"
| "lkind_name DoWhileStatement = ''DoWhileStatement''"
| "lkind_name ForStatement = ''ForStatement''"
| "lkind_name ForInStatement = ''ForInStatement''"
| "lkind_name ForOfStatement = ''ForOfStatement''"

text \<open>\<^verbatim>\<open>node.type\<close>, \<^verbatim>\<open>node.value\<close> and \<^verbatim>\<open>node.body\<close>\<close>

fun ntype :: "node \<Rightarrow> string" where
  "ntype (ReturnStatement i ps) = ''ReturnStatement''"
| "ntype (YieldExpression i ps) = ''YieldExpression''"
| "ntype (Function i ps k v b) = fkind_name k"
| "ntype (ExpressionStatement i ps e) = ''ExpressionStatement''"
| "ntype (IfStatement i ps c a) = ''IfStatement''"
| "ntype (Loop i ps k b) = lkind_name k"
| "ntype (SwitchStatement i ps cs) = ''SwitchStatement''"
| "ntype (BlockStatement i ps ss) = ''BlockStatement''"
| "ntype (Other i ps ty v b) = ty"

fun value_of :: "node \<Rightarrow> node option" where
  "value_of (Function i ps k v b) = v"
| "value_of (Other i ps ty v b) = v"
| "value_of _ = None"

fun body_of :: "node \<Rightarrow> node field" where
  "body_of (Function i ps k v b) = Obj b"
| "body_of (Loop i ps k b) = Obj b"
| "body_of (BlockStatement i ps ss) = Arr ss"
| "body_of (Other i ps ty v b) = b"
| "body_of _ = Undefined"

text \<open>
  \<^verbatim>\<open>x.body\<close> for the value \<open>x\<close> of a \<^verbatim>\<open>body\<close> property: a \<^verbatim>\<open>TypeError\<close> on \<^verbatim>\<open>undefined\<close>,
  \<^verbatim>\<open>undefined\<close> on an array.
\<close>

fun field_body :: "node field \<Rightarrow> js_error + node field" where
  "field_body Undefined = Inl TypeError"
| "field_body (Obj n) = Inr (body_of n)"
| "field_body (Arr ns) = Inr Undefined"

fun field_truthy :: "node field \<Rightarrow> bool" where
  "field_truthy Undefined = False"
| "field_truthy (Obj n) = True"
| "field_truthy (Arr ns) = True"

text \<open>\<^verbatim>\<open>typeof x === 'object'\<close>\<close>

fun typeof_object :: "node field \<Rightarrow> bool" where
  "typeof_object Undefined = False"
| "typeof_object (Obj n) = True"
| "typeof_object (Arr ns) = True"

text \<open>Truthiness: an array is an object, hence truthy even when empty.\<close>

fun truthy :: "jsval \<Rightarrow> bool" where
  "truthy JFalse = False"
| "truthy JNull = False"
| "truthy (JNode n) = True"
| "truthy (JArr xs) = True"

definition truthy_string :: "string \<Rightarrow> bool" where
  "truthy_string s = (s \<noteq> [])"

text \<open>
  \<^verbatim>\<open>isFunctionType\<close> and \<^verbatim>\<open>isSupportedBodyType\<close> (lines 9 to 17): the regular expressions
  \<^verbatim>\<open>^(?:Function(?:Declaration|Expression)|ArrowFunctionExpression)$\<close> and
  \<^verbatim>\<open>^(?:(?:Do)?While|For(?:In|Of)?|If|Expression)Statement$\<close>, tested on a \<^verbatim>\<open>type\<close>.
\<close>

definition isFunctionType :: "string \<Rightarrow> bool" where
  "isFunctionType ty =
     (ty \<in> set [''FunctionDeclaration'', ''FunctionExpression'', ''ArrowFunctionExpression''])"

definition isSupportedBodyType :: "string \<Rightarrow> bool" where
  "isSupportedBodyType ty =
     (ty \<in> set [''DoWhileStatement'', ''WhileStatement'', ''ForStatement'', ''ForInStatement'',
                 ''ForOfStatement'', ''IfStatement'', ''ExpressionStatement''])"

text \<open>\<^verbatim>\<open>flatMap(xs, (_) => _)\<close>: the elements that are arrays are spliced in, one level deep.\<close>

fun flatMap :: "jsval list \<Rightarrow> jsval list" where
  "flatMap [] = []"
| "flatMap (JArr ys # xs) = ys @ flatMap xs"
| "flatMap (x # xs) = x # flatMap xs"

text \<open>\<^verbatim>\<open>xs.map(f)\<close> for a callback that may throw.\<close>

fun map_results :: "('a \<Rightarrow> js_error + 'b) \<Rightarrow> 'a list \<Rightarrow> js_error + 'b list" where
  "map_results f [] = Inr []"
| "map_results f (x # xs) =
     (case f x of
        Inl e \<Rightarrow> Inl e
      | Inr y \<Rightarrow> (case map_results f xs of Inl e \<Rightarrow> Inl e | Inr ys \<Rightarrow> Inr (y # ys)))"

subsection \<open>findJSXReturnStatement (lines 25 to 128)\<close>

text \<open>
  The \<^verbatim>\<open>while (parent)\<close> loop of \<^verbatim>\<open>loopNodes\<close>, run on the chain that starts at \<^verbatim>\<open>bnode\<close>
  itself: \<open>Rejected\<close> is \<^verbatim>\<open>return false\<close>, \<open>Accepted\<close> is \<^verbatim>\<open>return bnode\<close>, \<open>Exhausted\<close> is
  the loop ending with no return.
\<close>

datatype walk_result = Rejected | Accepted | Exhausted

fun walk :: "node \<Rightarrow> ancestor list \<Rightarrow> walk_result" where
  "walk node [] = Exhausted"
| "walk node (parent # rest) =
     (if isFunctionType (snd parent) \<and> fst parent \<noteq> nid node then Rejected
      else if fst parent = nid node then Accepted
      else walk node rest)"

text \<open>
  \<^verbatim>\<open>loopNodes(bnode)\<close> of \<^verbatim>\<open>findJSXReturnStatement\<close> (lines 30 to 78), for a \<^verbatim>\<open>bnode\<close>
  that is a node; the first argument is the \<^verbatim>\<open>node\<close> of the enclosing call.
\<close>

fun loopNodes :: "node \<Rightarrow> node \<Rightarrow> jsval" where
  "loopNodes node bnode =
     (if (ntype bnode = ''ReturnStatement'' \<or> ntype bnode = ''YieldExpression''
          \<or> isFunctionType (ntype bnode))
         \<and> walk node ((nid bnode, ntype bnode) # nparent bnode) \<noteq> Exhausted
      then (if walk node ((nid bnode, ntype bnode) # nparent bnode) = Accepted
            then JNode bnode else JFalse)
      else case bnode of
        ExpressionStatement i ps expression \<Rightarrow> JNode expression
      | IfStatement i ps consequent None \<Rightarrow>
          (if ntype consequent \<noteq> ''BlockStatement'' then loopNodes node consequent
           else JFalse)
      | IfStatement i ps consequent (Some alternate) \<Rightarrow>
          JArr (filter truthy (flatMap (map (loopNodes node)
            ((if ntype consequent \<noteq> ''BlockStatement'' then [consequent] else [])
             @ (if ntype alternate \<noteq> ''BlockStatement'' then [alternate] else [])))))
      | SwitchStatement i ps cases \<Rightarrow>
          JArr (filter truthy (flatMap (map
            (\<lambda>switchCase. case switchCase of
                 Some consequent \<Rightarrow>
                   if length consequent \<noteq> 0
                   then JArr (flatMap (map (loopNodes node) consequent))
                   else JFalse
               | None \<Rightarrow> JFalse)
            cases)))
      | _ \<Rightarrow>
          (if isSupportedBodyType (ntype bnode)
           then (case body_of bnode of
                   Obj body \<Rightarrow>
                     if ntype body \<noteq> ''BlockStatement'' then loopNodes node body else JFalse
                 | _ \<Rightarrow> JFalse)
           else JFalse))"

declare loopNodes.simps [simp del]

text \<open>
  \<^verbatim>\<open>loopNodes\<close> on any value: \<^verbatim>\<open>if (!bnode) return false\<close>; an array has no \<^verbatim>\<open>type\<close> and
  falls through every test to the final \<^verbatim>\<open>return false\<close>.
\<close>

fun loopNodes_value :: "node \<Rightarrow> jsval \<Rightarrow> jsval" where
  "loopNodes_value node (JNode bnode) = loopNodes node bnode"
| "loopNodes_value node v = JFalse"

text \<open>A lexical scope of the scope manager: \<^verbatim>\<open>scope.type\<close> and \<^verbatim>\<open>scope.block\<close>.\<close>

record scope =
  scope_type :: string
  scope_block :: node

text \<open>The callback of \<^verbatim>\<open>scopes.map\<close> (lines 83 to 124).\<close>

definition scope_callback :: "scope \<Rightarrow> js_error + jsval" where
  "scope_callback scope =
     (if scope_type scope = ''function'' \<and> isFunctionType (ntype (scope_block scope)) then
        (case field_body (body_of (scope_block scope)) of
           Inl e \<Rightarrow> Inl e
         | Inr Undefined \<Rightarrow>
             if typeof_object (body_of (scope_block scope)) then Inr (JNode (scope_block scope))
             else Inr JNull
         | Inr (Arr stmts) \<Rightarrow>
             (let retStatement =
                    filter (\<lambda>body. ntype body = ''ReturnStatement''
                                     \<or> isSupportedBodyType (ntype body)) stmts
              in if length retStatement \<noteq> 0
                 then (if length stmts = 0 then Inr JNull
                       else Inr (JArr (map JNode retStatement)))
                 else Inr JNull)
         | Inr (Obj b) \<Rightarrow> Inr JNull)
      else if scope_type scope = ''block'' \<and> ntype (scope_block scope) = ''BlockStatement'' then
        (case body_of (scope_block scope) of
           Arr stmts \<Rightarrow>
             (let retStatement =
                    filter (\<lambda>body. truthy_string ''ReturnStatement''
                                     \<or> isSupportedBodyType (ntype body)) stmts
              in if length retStatement \<noteq> 0
                 then (if length stmts = 0 then Inr JNull
                       else Inr (JArr (map JNode retStatement)))
                 else Inr JNull)
         | _ \<Rightarrow> Inl TypeError)
      else if scope_type scope = ''switch'' \<and> ntype (scope_block scope) = ''SwitchStatement''
        then Inr (JNode (scope_block scope))
      else if scope_type scope = ''for'' then
        (case body_of (scope_block scope) of
           Undefined \<Rightarrow> Inl TypeError
         | Obj body \<Rightarrow> if ntype body \<noteq> ''BlockStatement'' then Inr (JNode body) else Inr JNull
         | Arr stmts \<Rightarrow> Inr (JArr (map JNode stmts)))
      else Inr JNull)"

text \<open>\<^verbatim>\<open>(scope) => scope !== null && scope.length !== 0\<close>; a node has no \<^verbatim>\<open>length\<close>.\<close>

fun keep_candidate :: "jsval \<Rightarrow> bool" where
  "keep_candidate JNull = False"
| "keep_candidate (JArr xs) = (length xs \<noteq> 0)"
| "keep_candidate v = True"

text \<open>
  \<^verbatim>\<open>findJSXReturnStatement(node, context)\<close>; of the context the function reads
  \<^verbatim>\<open>context.getSourceCode().scopeManager.scopes\<close>, the second argument here.
\<close>

definition findJSXReturnStatement :: "node \<Rightarrow> scope list \<Rightarrow> js_error + jsval" where
  "findJSXReturnStatement node scopes =
     (let bodyNodes =
            (if ntype node = ''ReturnStatement'' \<or> ntype node = ''YieldExpression''
             then [JNode node] else [])
      in if isFunctionType (ntype node) then
           (let node' = (case value_of node of Some v \<Rightarrow> v | None \<Rightarrow> node)
            in case map_results scope_callback scopes of
                 Inl e \<Rightarrow> Inl e
               | Inr candidates \<Rightarrow>
                  (let bodyNodes' = flatMap (filter keep_candidate candidates)
                   in if truthy (JArr bodyNodes')
                      then Inr (JArr (flatMap (map (loopNodes_value node') bodyNodes')))
                      else Inr JFalse))
         else if truthy (JArr bodyNodes)
           then Inr (JArr (flatMap (map (loopNodes_value node) bodyNodes)))
           else Inr JFalse)"

subsection \<open>stripQuotes (lines 272 to 274)\<close>

text \<open>
  \<^verbatim>\<open>string.replace(/^'|'$/g, '')\<close>: the global replacement scans the string from the left;
  at each position the first alternative matches a quote at the start of the input and the
  second one a quote that is the last code unit. A match is dropped, any other code unit kept.
  \<open>at_start\<close> tells whether the position is the start of the input.
\<close>

fun replace_quotes :: "bool \<Rightarrow> string \<Rightarrow> string" where
  "replace_quotes at_start [] = []"
| "replace_quotes at_start (c # cs) =
     (if c = CHR 0x27 \<and> (at_start \<or> cs = []) then replace_quotes False cs
      else c # replace_quotes False cs)"

definition stripQuotes :: "string \<Rightarrow> string" where
  "stripQuotes string = replace_quotes True string"

subsection \<open>findReturnStatement (lines 136 to 161)\<close>

text \<open>
  The inner \<^verbatim>\<open>loopNodes(nodes)\<close> of \<^verbatim>\<open>findReturnStatement\<close>. The second argument is the loop
  counter plus one: \<open>Suc i\<close> is the iteration at index \<open>i\<close>, \<open>0\<close> is the exit at \<open>i = -1\<close>.
  The inner \<^verbatim>\<open>for\<close> over the cases returns in its first iteration, at the last case.
\<close>

function findReturnStatement_loopNodes :: "node list \<Rightarrow> nat \<Rightarrow> js_error + node option" where
  "findReturnStatement_loopNodes nodes 0 = Inr None"
| "findReturnStatement_loopNodes nodes (Suc i) =
     (case nth_opt nodes i of
        None \<Rightarrow> Inl TypeError
      | Some n \<Rightarrow>
          if ntype n = ''ReturnStatement'' then Inr (Some n)
          else (case n of
                  SwitchStatement sid ps cases \<Rightarrow>
                    (if length cases = 0 then findReturnStatement_loopNodes nodes i
                     else (case nth_opt cases (length cases - 1) of
                             Some (Some consequent) \<Rightarrow>
                               findReturnStatement_loopNodes consequent (length consequent)
                           | _ \<Rightarrow> Inl TypeError))
                | _ \<Rightarrow> findReturnStatement_loopNodes nodes i))"
  by pat_completeness auto
termination
proof -
  have stmt: "\<And>xs i x. nth_opt xs i = Some (x::node) \<Longrightarrow> size x < size_list size xs"
    subgoal for xs i x by (induction xs i rule: nth_opt.induct) auto
    done
  have cons: "\<And>cs j c. nth_opt cs j = Some (Some (c::node list))
      \<Longrightarrow> size_list size c < size_list (size_option (size_list size)) cs"
    subgoal for cs j c by (induction cs j rule: nth_opt.induct) auto
    done
  show ?thesis
    apply (relation "measures [\<lambda>(nodes, k). size_list size nodes, \<lambda>(nodes, k). k]")
    apply (auto dest!: stmt cons)
    done
qed

text \<open>\<^verbatim>\<open>!n.body || !n.body.body\<close>\<close>

definition lacks_statements :: "node \<Rightarrow> bool" where
  "lacks_statements n =
     (case body_of n of
        Undefined \<Rightarrow> True
      | Obj b \<Rightarrow> \<not> field_truthy (body_of b)
      | Arr ns \<Rightarrow> True)"

text \<open>
  \<^verbatim>\<open>findReturnStatement(node)\<close>: \<open>Inr None\<close> is \<^verbatim>\<open>false\<close>. A \<^verbatim>\<open>bodyNodes\<close> that is a node has
  no \<^verbatim>\<open>length\<close>, the counter starts at \<^verbatim>\<open>NaN\<close> and the loop does not run.
\<close>

definition findReturnStatement :: "node \<Rightarrow> js_error + node option" where
  "findReturnStatement node =
     (if (case value_of node of None \<Rightarrow> True | Some v \<Rightarrow> lacks_statements v)
         \<and> lacks_statements node
      then Inr None
      else case (case value_of node of
                   Some v \<Rightarrow> field_body (body_of v)
                 | None \<Rightarrow> field_body (body_of node)) of
             Inl e \<Rightarrow> Inl e
           | Inr Undefined \<Rightarrow> Inl TypeError
           | Inr (Obj b) \<Rightarrow> Inr None
           | Inr (Arr bodyNodes) \<Rightarrow> findReturnStatement_loopNodes bodyNodes (length bodyNodes))"

section \<open>Inputs of the examples\<close>

subsection \<open>Declarations\<close>

text \<open>
  The options of the rule when none is configured, a declaration \<^verbatim>\<open>name: PropTypes.t\<close>
  (\<^verbatim>\<open>t\<close> the name of the last property of its value, \<^verbatim>\<open>isRequired\<close> for a required
  one; \<^verbatim>\<open>name\<close> an identifier, which no number is read from), a spread \<^verbatim>\<open>...name\<close>, and a
  declaration \<^verbatim>\<open>n: PropTypes.t\<close> whose key is the numeric literal of a natural number
  \<^verbatim>\<open>n\<close> written \<^verbatim>\<open>text\<close>.
\<close>

definition default_options :: policy where
  "default_options =
     \<lparr>requiredFirst = False, callbacksLast = False, ignoreCase = False,
      noSortAlphabetically = False, sortShapeProp = False\<rparr>"

definition property_decl :: "nat \<Rightarrow> string \<Rightarrow> string \<Rightarrow> decl" where
  "property_decl i name t =
     \<lparr>did = i, dtype = ''Property'', key_value = None, key_text = name,
      key_text_number = NaN, value_property_name = Some t\<rparr>"

definition spread_decl :: "nat \<Rightarrow> string \<Rightarrow> decl" where
  "spread_decl i name =
     \<lparr>did = i, dtype = ''SpreadElement'', key_value = None, key_text = name,
      key_text_number = NaN, value_property_name = None\<rparr>"

definition numeric_decl :: "nat \<Rightarrow> nat \<Rightarrow> string \<Rightarrow> string \<Rightarrow> decl" where
  "numeric_decl i n text t =
     \<lparr>did = i, dtype = ''Property'',
      key_value = Some (JNumber (Finite (of_nat n)) text), key_text = text,
      key_text_number = Finite (of_nat n), value_property_name = Some t\<rparr>"

text \<open>The nodes named by the reports of a run; none when the run threw.\<close>

definition reported_nodes :: "js_error + report list \<Rightarrow> decl list" where
  "reported_nodes r = (case r of Inl e \<Rightarrow> [] | Inr rs \<Rightarrow> map fst rs)"

subsection \<open>Programs\<close>

text \<open>
  The program \<^verbatim>\<open>function f() {}\<close>, its function and the scopes of its scope manager.
\<close>

definition empty_function :: node where
  "empty_function =
     Function 1 [(0, ''Program'')] FunctionDeclaration None
       (BlockStatement 2 [(1, ''FunctionDeclaration''), (0, ''Program'')] [])"

definition empty_program :: node where
  "empty_program = Other 0 [] ''Program'' None (Arr [empty_function])"

definition empty_function_scopes :: "scope list" where
  "empty_function_scopes =
     [\<lparr>scope_type = ''global'', scope_block = empty_program\<rparr>,
      \<lparr>scope_type = ''function'', scope_block = empty_function\<rparr>]"

text \<open>
  The program \<^verbatim>\<open>function* f() { function* g() { yield 1; } }\<close>: the yield expression
  of \<^verbatim>\<open>g\<close>, the two functions and the scopes of the scope manager.
\<close>

definition inner_yield :: node where
  "inner_yield =
     YieldExpression 6
       [(5, ''ExpressionStatement''), (4, ''BlockStatement''), (3, ''FunctionDeclaration''),
        (2, ''BlockStatement''), (1, ''FunctionDeclaration''), (0, ''Program'')]"

definition inner_generator :: node where
  "inner_generator =
     Function 3 [(2, ''BlockStatement''), (1, ''FunctionDeclaration''), (0, ''Program'')]
       FunctionDeclaration None
       (BlockStatement 4
          [(3, ''FunctionDeclaration''), (2, ''BlockStatement''), (1, ''FunctionDeclaration''),
           (0, ''Program'')]
          [ExpressionStatement 5
             [(4, ''BlockStatement''), (3, ''FunctionDeclaration''), (2, ''BlockStatement''),
              (1, ''FunctionDeclaration''), (0, ''Program'')]
             inner_yield])"

definition outer_generator :: node where
  "outer_generator =
     Function 1 [(0, ''Program'')] FunctionDeclaration None
       (BlockStatement 2 [(1, ''FunctionDeclaration''), (0, ''Program'')] [inner_generator])"

definition generator_scopes :: "scope list" where
  "generator_scopes =
     [\<lparr>scope_type = ''global'',
       scope_block = Other 0 [] ''Program'' None (Arr [outer_generator])\<rparr>,
      \<lparr>scope_type = ''function'', scope_block = outer_generator\<rparr>,
      \<lparr>scope_type = ''function'', scope_block = inner_generator\<rparr>]"

text \<open>
  The program \<^verbatim>\<open>function f() { return function g() { return 1; } }\<close>: the two return
  statements, the two functions and the scopes of the scope manager.
\<close>

definition outer_return :: node where
  "outer_return =
     ReturnStatement 3 [(2, ''BlockStatement''), (1, ''FunctionDeclaration''), (0, ''Program'')]"

definition inner_return :: node where
  "inner_return =
     ReturnStatement 6
       [(5, ''BlockStatement''), (4, ''FunctionExpression''), (3, ''ReturnStatement''),
        (2, ''BlockStatement''), (1, ''FunctionDeclaration''), (0, ''Program'')]"

definition inner_function :: node where
  "inner_function =
     Function 4
       [(3, ''ReturnStatement''), (2, ''BlockStatement''), (1, ''FunctionDeclaration''),
        (0, ''Program'')]
       FunctionExpression None
       (BlockStatement 5
          [(4, ''FunctionExpression''), (3, ''ReturnStatement''), (2, ''BlockStatement''),
           (1, ''FunctionDeclaration''), (0, ''Program'')]
          [inner_return])"

definition outer_function :: node where
  "outer_function =
     Function 1 [(0, ''Program'')] FunctionDeclaration None
       (BlockStatement 2 [(1, ''FunctionDeclaration''), (0, ''Program'')] [outer_return])"

definition nested_return_scopes :: "scope list" where
  "nested_return_scopes =
     [\<lparr>scope_type = ''global'',
       scope_block = Other 0 [] ''Program'' None (Arr [outer_function])\<rparr>,
      \<lparr>scope_type = ''function'', scope_block = outer_function\<rparr>,
      \<lparr>scope_type = ''function'', scope_block = inner_function\<rparr>]"

text \<open>
  The program \<^verbatim>\<open>function h(x) { switch (x) { case 1: return 1; case 2: foo(); default: bar(); } }\<close>:
  the statements of the three cases, the switch statement and the function.
\<close>

definition switch_chain :: "ancestor list" where
  "switch_chain =
     [(3, ''SwitchStatement''), (2, ''BlockStatement''), (1, ''FunctionDeclaration''),
      (0, ''Program'')]"

definition case_return :: node where
  "case_return = ReturnStatement 5 ((4, ''SwitchCase'') # switch_chain)"

definition case_foo :: node where
  "case_foo =
     ExpressionStatement 7 ((6, ''SwitchCase'') # switch_chain)
       (Other 8 ((7, ''ExpressionStatement'') # (6, ''SwitchCase'') # switch_chain)
          ''CallExpression'' None Undefined)"

definition case_bar :: node where
  "case_bar =
     ExpressionStatement 10 ((9, ''SwitchCase'') # switch_chain)
       (Other 11 ((10, ''ExpressionStatement'') # (9, ''SwitchCase'') # switch_chain)
          ''CallExpression'' None Undefined)"

definition three_cases :: node where
  "three_cases =
     SwitchStatement 3 (tl switch_chain) [Some [case_return], Some [case_foo], Some [case_bar]]"

definition switch_function :: node where
  "switch_function =
     Function 1 [(0, ''Program'')] FunctionDeclaration None
       (BlockStatement 2 [(1, ''FunctionDeclaration''), (0, ''Program'')] [three_cases])"

text \<open>
  The program \<^verbatim>\<open>function k(x) { return 0; switch (x) { case 1: foo(); } bar(); }\<close>: its
  three statements and the function.
\<close>

definition body_chain :: "ancestor list" where
  "body_chain = [(2, ''BlockStatement''), (1, ''FunctionDeclaration''), (0, ''Program'')]"

definition early_return :: node where
  "early_return = ReturnStatement 3 body_chain"

definition middle_switch :: node where
  "middle_switch =
     SwitchStatement 4 body_chain
       [Some [ExpressionStatement 6 ((5, ''SwitchCase'') # (4, ''SwitchStatement'') # body_chain)
                (Other 7
                   ((6, ''ExpressionStatement'') # (5, ''SwitchCase'')
                    # (4, ''SwitchStatement'') # body_chain)
                   ''CallExpression'' None Undefined)]]"

definition last_call :: node where
  "last_call =
     ExpressionStatement 8 body_chain
       (Other 9 ((8, ''ExpressionStatement'') # body_chain) ''CallExpression'' None Undefined)"

definition middle_switch_function :: node where
  "middle_switch_function =
     Function 1 [(0, ''Program'')] FunctionDeclaration None
       (BlockStatement 2 [(1, ''FunctionDeclaration''), (0, ''Program'')]
          [early_return, middle_switch, last_call])"

subsection \<open>Abbreviations of the proofs\<close>

text \<open>The test that opens the callback of the reduction (line 456).\<close>

definition is_spread :: "decl \<Rightarrow> bool" where
  "is_spread d = (dtype d = ''ExperimentalSpreadProperty'' \<or> dtype d = ''SpreadElement'')"

text \<open>
  The required-first reports of a sequence as the specification words them: one report, on
  the later declaration, for each non-required declaration that a required one immediately
  follows. The first argument is the declaration before the list.
\<close>

fun required_breaks :: "decl \<Rightarrow> decl list \<Rightarrow> report list" where
  "required_breaks x [] = []"
| "required_breaks x (y # ys) =
     (if \<not> isRequiredProp x \<and> isRequiredProp y then [(y, REQUIRED_MESSAGE)] else [])
     @ required_breaks y ys"

section \<open>Properties of checkSorted\<close>

lemma messages_distinct:
  "REQUIRED_MESSAGE \<noteq> CALLBACK_MESSAGE" "REQUIRED_MESSAGE \<noteq> ALPHABETICAL_MESSAGE"
  "CALLBACK_MESSAGE \<noteq> ALPHABETICAL_MESSAGE"
  by (simp_all add: REQUIRED_MESSAGE_def CALLBACK_MESSAGE_def ALPHABETICAL_MESSAGE_def)

lemma js_string_lt_irrefl: "\<not> js_string_lt s s"
  by (induction s) auto

subsection \<open>The required-first example\<close>

text \<open>
  Claim C5, as the code has it. On \<^verbatim>\<open>[a (required), b (not required), c (required)]\<close> with
  \<^verbatim>\<open>requiredFirst: true\<close> the run sends exactly one report, the required-first message, and
  it names \<^verbatim>\<open>c\<close>, the required declaration that follows the non-required \<^verbatim>\<open>b\<close>.
\<close>

theorem required_first_example_reports_c:
  "checkSorted (default_options\<lparr>requiredFirst := True\<rparr>)
     (Some [property_decl 0 ''a'' ''isRequired'', property_decl 1 ''b'' ''string'',
            property_decl 2 ''c'' ''isRequired''])
   = Inr [(property_decl 2 ''c'' ''isRequired'', REQUIRED_MESSAGE)]"
  by code_simp

text \<open>Claim C5, as stated, fails: no report of that run names \<^verbatim>\<open>b\<close>.\<close>

theorem required_first_example_not_b:
  "property_decl 1 ''b'' ''string''
     \<notin> set (reported_nodes (checkSorted (default_options\<lparr>requiredFirst := True\<rparr>)
         (Some [property_decl 0 ''a'' ''isRequired'', property_decl 1 ''b'' ''string'',
                property_decl 2 ''c'' ''isRequired''])))"
  by code_simp

subsection \<open>One call of the callback, layer by layer\<close>

lemma required_first_step:
  assumes "requiredFirst p"
    and "dtype cur \<noteq> ''ExperimentalSpreadProperty''" and "dtype cur \<noteq> ''SpreadElement''"
  shows "(\<not> isRequiredProp prv \<and> isRequiredProp cur \<longrightarrow>
            reduce_callback p (Some prv) cur idx decls = Inr (Some cur, [(cur, REQUIRED_MESSAGE)]))
       \<and> (isRequiredProp prv \<and> \<not> isRequiredProp cur \<longrightarrow>
            reduce_callback p (Some prv) cur idx decls = Inr (Some cur, []))
       \<and> (\<forall>b rs n. reduce_callback p (Some prv) cur idx decls = Inr (b, rs)
              \<and> (n, REQUIRED_MESSAGE) \<in> set rs
            \<longrightarrow> \<not> isRequiredProp prv \<and> isRequiredProp cur)"
  using assms messages_distinct
  by (auto simp: reduce_callback_def Let_def split: if_splits)

lemma callbacks_last_step:
  assumes "callbacksLast p"
    and "dtype cur \<noteq> ''ExperimentalSpreadProperty''" and "dtype cur \<noteq> ''SpreadElement''"
    and "\<not> requiredFirst p \<or> isRequiredProp prv = isRequiredProp cur"
  shows "(isCallbackPropName (getKey prv) \<and> \<not> isCallbackPropName (getKey cur) \<longrightarrow>
            reduce_callback p (Some prv) cur idx decls = Inr (Some prv, [(prv, CALLBACK_MESSAGE)]))
       \<and> (\<not> isCallbackPropName (getKey prv) \<and> isCallbackPropName (getKey cur) \<longrightarrow>
            reduce_callback p (Some prv) cur idx decls = Inr (Some cur, []))"
  using assms
  by (auto simp: reduce_callback_def Let_def)

lemma alphabetical_step:
  assumes "\<not> noSortAlphabetically p"
    and "dtype cur \<noteq> ''ExperimentalSpreadProperty''" and "dtype cur \<noteq> ''SpreadElement''"
    and "\<not> requiredFirst p \<or> isRequiredProp prv = isRequiredProp cur"
    and "\<not> callbacksLast p \<or> isCallbackPropName (getKey prv) = isCallbackPropName (getKey cur)"
  shows "reduce_callback p (Some prv) cur idx decls =
           (if (if ignoreCase p
                then js_string_lt (toLowerCase (getKey cur)) (toLowerCase (getKey prv))
                else js_lt (getKey cur) (getKey prv))
            then Inr (Some prv, [(cur, ALPHABETICAL_MESSAGE)])
            else Inr (Some cur, []))"
  using assms
  by (auto simp: reduce_callback_def Let_def)

lemma js_lt_strings:
  "is_string a \<Longrightarrow> is_string b \<Longrightarrow> js_lt a b = js_string_lt (ToString a) (ToString b)"
  by (cases a; cases b) simp_all

lemma js_number_lt_irrefl: "\<not> js_number_lt n n"
  by (cases n) simp_all

lemma js_lt_irrefl: "\<not> js_lt v v"
  by (cases v) (simp_all add: js_string_lt_irrefl js_number_lt_irrefl)

subsection \<open>The whole reduction\<close>

lemma nth_opt_append_length: "nth_opt (pre @ rest) (length pre + i) = nth_opt rest i"
  by (induction pre) auto

lemma reduce_callback_suffix:
  "reduce_callback p prev cur (length pre) (pre @ cur # rest)
     = reduce_callback p prev cur 0 (cur # rest)"
  using nth_opt_append_length[of pre "cur # rest" 1]
  by (simp add: reduce_callback_def)

text \<open>The loop reads the array only from the current index on.\<close>

lemma reduce_loop_suffix:
  "reduce_loop p (pre @ rest) prev out (length pre) rest = reduce_loop p rest prev out 0 rest"
proof (induction rest arbitrary: pre prev out)
  case Nil
  show ?case by simp
next
  case (Cons cur rest)
  have a: "reduce_loop p ((pre @ [cur]) @ rest) pv ot (length (pre @ [cur])) rest
             = reduce_loop p rest pv ot 0 rest" for pv ot
    by (rule Cons.IH)
  have b: "reduce_loop p ([cur] @ rest) pv ot (length [cur]) rest
             = reduce_loop p rest pv ot 0 rest" for pv ot
    by (rule Cons.IH)
  show ?case
    using a b by (simp add: reduce_callback_suffix split: sum.splits prod.splits)
qed

lemma reduce_loop_unfold:
  "reduce_loop p (cur # rest) prev out 0 (cur # rest) =
     (case reduce_callback p prev cur 0 (cur # rest) of
        Inl e \<Rightarrow> Inl e
      | Inr (prev', new) \<Rightarrow> reduce_loop p rest prev' (out @ new) 0 rest)"
  using reduce_loop_suffix[of p "[cur]" rest]
  by (simp split: sum.splits prod.splits)

lemma reduce_loop_out:
  "reduce_loop p decls prev out idx rest =
     (case reduce_loop p decls prev [] idx rest of
        Inl e \<Rightarrow> Inl e
      | Inr (final, rs) \<Rightarrow> Inr (final, out @ rs))"
proof (induction rest arbitrary: prev out idx)
  case Nil
  show ?case by simp
next
  case (Cons cur rest)
  show ?case
  proof (cases "reduce_callback p prev cur idx decls")
    case (Inl e)
    then show ?thesis by simp
  next
    case (Inr r)
    obtain pv new where r: "r = (pv, new)" by (cases r)
    show ?thesis
      using Inr r Cons.IH[of pv "out @ new" "Suc idx"] Cons.IH[of pv new "Suc idx"]
      by (simp split: sum.splits prod.splits)
  qed
qed

lemma callback_spread:
  "is_spread cur \<Longrightarrow> reduce_callback p prev cur 0 (cur # rest) = Inr (nth_opt rest 0, [])"
  by (auto simp: reduce_callback_def is_spread_def)

lemma callback_plain:
  "\<not> is_spread cur \<Longrightarrow>
     \<exists>b new. reduce_callback p (Some prv) cur idx decls = Inr (Some b, new)"
  by (auto simp: reduce_callback_def is_spread_def Let_def)

lemma callback_plain_decls:
  "\<not> is_spread cur \<Longrightarrow>
     reduce_callback p prev cur idx decls = reduce_callback p prev cur idx' decls'"
  by (auto simp: reduce_callback_def is_spread_def Let_def)

lemma nth_opt_0: "nth_opt xs 0 = (case xs of [] \<Rightarrow> None | x # _ \<Rightarrow> Some x)"
  by (cases xs) auto

text \<open>The run never throws: the baseline is defined whenever a key is read from it.\<close>

lemma reduce_loop_total:
  assumes "rest \<noteq> [] \<Longrightarrow> \<not> is_spread (hd rest) \<Longrightarrow> prev \<noteq> None"
  shows "\<exists>final rs. reduce_loop p rest prev [] 0 rest = Inr (final, rs)"
  using assms
proof (induction rest arbitrary: prev)
  case Nil
  show ?case by simp
next
  case (Cons cur rest)
  show ?case
  proof (cases "is_spread cur")
    case True
    have "\<exists>final rs. reduce_loop p rest (nth_opt rest 0) [] 0 rest = Inr (final, rs)"
      by (rule Cons.IH) (simp add: nth_opt_0 split: list.splits)
    then show ?thesis
      using True by (auto simp del: reduce_loop.simps(2) simp add: reduce_loop_unfold callback_spread)
  next
    case False
    then obtain prv where prv: "prev = Some prv" using Cons.prems by auto
    obtain b new where cb: "reduce_callback p (Some prv) cur 0 (cur # rest) = Inr (Some b, new)"
      using callback_plain[OF False] by blast
    obtain final rs where "reduce_loop p rest (Some b) [] 0 rest = Inr (final, rs)"
      using Cons.IH[of "Some b"] by auto
    then show ?thesis
      using prv cb reduce_loop_out[of p rest "Some b" new 0 rest]
      by (simp del: reduce_loop.simps(2) add: reduce_loop_unfold)
  qed
qed

lemma checkSorted_Some:
  "checkSorted p (Some decls) =
     (case reduce_loop p decls (nth_opt decls 0) [] 0 decls of
        Inl e \<Rightarrow> Inl e | Inr (final, out) \<Rightarrow> Inr out)"
  by (simp add: checkSorted_def)

lemma checkSorted_total: "\<exists>rs. checkSorted p declarations = Inr rs"
proof (cases declarations)
  case None
  then show ?thesis by (simp add: checkSorted_def)
next
  case (Some decls)
  have "\<exists>final rs. reduce_loop p decls (nth_opt decls 0) [] 0 decls = Inr (final, rs)"
    by (rule reduce_loop_total) (simp add: nth_opt_0 split: list.splits)
  then show ?thesis using Some by (auto simp: checkSorted_Some)
qed

text \<open>Reports sent before a spread, and after it.\<close>

lemma reduce_loop_spread:
  assumes s: "is_spread s"
    and pre: "xs \<noteq> [] \<Longrightarrow> \<not> is_spread (hd xs) \<Longrightarrow> prev \<noteq> None"
  shows "\<exists>f1 a f2 b f3.
           reduce_loop p xs prev [] 0 xs = Inr (f1, a)
         \<and> reduce_loop p post (nth_opt post 0) [] 0 post = Inr (f2, b)
         \<and> reduce_loop p (xs @ s # post) prev [] 0 (xs @ s # post) = Inr (f3, a @ b)"
  using pre
proof (induction xs arbitrary: prev)
  case Nil
  have "\<exists>f2 b. reduce_loop p post (nth_opt post 0) [] 0 post = Inr (f2, b)"
    by (rule reduce_loop_total) (simp add: nth_opt_0 split: list.splits)
  then obtain f2 b where "reduce_loop p post (nth_opt post 0) [] 0 post = Inr (f2, b)"
    by blast
  then show ?case
    using s by (simp del: reduce_loop.simps(2) add: reduce_loop_unfold callback_spread)
next
  case (Cons cur xs)
  show ?case
  proof (cases "is_spread cur")
    case True
    have cb1: "reduce_callback p prev cur 0 (cur # xs) = Inr (nth_opt xs 0, [])"
      using True by (rule callback_spread)
    have cb2: "reduce_callback p prev cur 0 (cur # xs @ s # post) = Inr (nth_opt (xs @ s # post) 0, [])"
      using True by (rule callback_spread)
    show ?thesis
    proof (cases xs)
      case Nil
      have "\<exists>f1 a f2 b f3.
           reduce_loop p xs (Some s) [] 0 xs = Inr (f1, a)
         \<and> reduce_loop p post (nth_opt post 0) [] 0 post = Inr (f2, b)
         \<and> reduce_loop p (xs @ s # post) (Some s) [] 0 (xs @ s # post) = Inr (f3, a @ b)"
        by (rule Cons.IH) (simp add: Nil)
      then obtain f1 a f2 b f3 where
        "reduce_loop p xs (Some s) [] 0 xs = Inr (f1, a)"
        "reduce_loop p post (nth_opt post 0) [] 0 post = Inr (f2, b)"
        "reduce_loop p (xs @ s # post) (Some s) [] 0 (xs @ s # post) = Inr (f3, a @ b)"
        by blast
      moreover have "nth_opt (xs @ s # post) 0 = Some s" "nth_opt xs 0 = None"
        using Nil by simp_all
      ultimately show ?thesis
        using cb1 cb2 Nil
        by (simp del: reduce_loop.simps(2) add: reduce_loop_unfold)
    next
      case (Cons x xs')
      have eq: "nth_opt (xs @ s # post) 0 = nth_opt xs 0" using Cons by simp
      have "\<exists>f1 a f2 b f3.
           reduce_loop p xs (nth_opt xs 0) [] 0 xs = Inr (f1, a)
         \<and> reduce_loop p post (nth_opt post 0) [] 0 post = Inr (f2, b)
         \<and> reduce_loop p (xs @ s # post) (nth_opt xs 0) [] 0 (xs @ s # post) = Inr (f3, a @ b)"
        by (rule Cons.IH) (simp add: Cons)
      then show ?thesis
        using cb1 cb2 eq by (simp del: reduce_loop.simps(2) add: reduce_loop_unfold)
    qed
  next
    case False
    then obtain prv where prv: "prev = Some prv" using Cons.prems by auto
    obtain b0 new where cb: "reduce_callback p (Some prv) cur 0 (cur # xs) = Inr (Some b0, new)"
      using callback_plain[OF False] by blast
    have cb': "reduce_callback p (Some prv) cur 0 (cur # xs @ s # post) = Inr (Some b0, new)"
      using cb callback_plain_decls[OF False, of p "Some prv" 0 "cur # xs" 0 "cur # xs @ s # post"]
      by simp
    obtain f1 a f2 b f3 where ih:
        "reduce_loop p xs (Some b0) [] 0 xs = Inr (f1, a)"
        "reduce_loop p post (nth_opt post 0) [] 0 post = Inr (f2, b)"
        "reduce_loop p (xs @ s # post) (Some b0) [] 0 (xs @ s # post) = Inr (f3, a @ b)"
      using Cons.IH[of "Some b0"] by auto
    show ?thesis
      using prv cb cb' ih reduce_loop_out[of p xs "Some b0" new 0 xs]
        reduce_loop_out[of p "xs @ s # post" "Some b0" new 0 "xs @ s # post"]
      by (simp del: reduce_loop.simps(2) add: reduce_loop_unfold)
  qed
qed


lemma spread_splits_run:
  assumes "dtype s = ''ExperimentalSpreadProperty'' \<or> dtype s = ''SpreadElement''"
  shows "\<exists>a b. checkSorted p (Some pre) = Inr a \<and> checkSorted p (Some post) = Inr b
            \<and> checkSorted p (Some (pre @ s # post)) = Inr (a @ b)"
proof -
  have s: "is_spread s" using assms by (simp add: is_spread_def)
  have start: "nth_opt (pre @ s # post) 0 = (if pre = [] then Some s else nth_opt pre 0)"
    by (cases pre) auto
  show ?thesis
  proof (cases pre)
    case Nil
    have "\<exists>f1 a f2 b f3.
           reduce_loop p pre (Some s) [] 0 pre = Inr (f1, a)
         \<and> reduce_loop p post (nth_opt post 0) [] 0 post = Inr (f2, b)
         \<and> reduce_loop p (pre @ s # post) (Some s) [] 0 (pre @ s # post) = Inr (f3, a @ b)"
      by (rule reduce_loop_spread[OF s]) simp
    then obtain f1 a f2 b f3 where
        "reduce_loop p pre (Some s) [] 0 pre = Inr (f1, a)"
        "reduce_loop p post (nth_opt post 0) [] 0 post = Inr (f2, b)"
        "reduce_loop p (pre @ s # post) (Some s) [] 0 (pre @ s # post) = Inr (f3, a @ b)"
      by blast
    moreover have "checkSorted p (Some pre) = Inr []" using Nil by (simp add: checkSorted_Some)
    moreover have "a = []" using calculation(1) Nil by simp
    ultimately show ?thesis using start Nil by (simp add: checkSorted_Some)
  next
    case (Cons x xs)
    obtain f1 a f2 b f3 where
        "reduce_loop p pre (nth_opt pre 0) [] 0 pre = Inr (f1, a)"
        "reduce_loop p post (nth_opt post 0) [] 0 post = Inr (f2, b)"
        "reduce_loop p (pre @ s # post) (nth_opt pre 0) [] 0 (pre @ s # post) = Inr (f3, a @ b)"
      using reduce_loop_spread[OF s, of pre "nth_opt pre 0" p post] Cons by auto
    then show ?thesis using Cons by (simp add: checkSorted_Some)
  qed
qed


text \<open>
  With \<^verbatim>\<open>requiredFirst\<close> set and no spread in the sequence, the baseline is required exactly
  when the declaration before the current one is.
\<close>

lemma required_first_callback:
  assumes "requiredFirst p" and "\<not> is_spread cur" and "isRequiredProp b = isRequiredProp x"
  shows "\<exists>b' new. reduce_callback p (Some b) cur idx decls = Inr (Some b', new)
           \<and> isRequiredProp b' = isRequiredProp cur
           \<and> filter (\<lambda>r. snd r = REQUIRED_MESSAGE) new
               = (if \<not> isRequiredProp x \<and> isRequiredProp cur then [(cur, REQUIRED_MESSAGE)] else [])"
  using assms messages_distinct
  by (auto simp: reduce_callback_def is_spread_def Let_def)

lemma required_first_loop:
  assumes "requiredFirst p" and "\<forall>d \<in> set rest. \<not> is_spread d"
    and "isRequiredProp b = isRequiredProp x"
  shows "\<exists>final rs. reduce_loop p rest (Some b) [] 0 rest = Inr (final, rs)
           \<and> filter (\<lambda>r. snd r = REQUIRED_MESSAGE) rs = required_breaks x rest"
  using assms(2,3)
proof (induction rest arbitrary: b x)
  case Nil
  show ?case by simp
next
  case (Cons cur rest)
  have plain: "\<not> is_spread cur" using Cons.prems(1) by simp
  obtain b' new where cb:
      "reduce_callback p (Some b) cur 0 (cur # rest) = Inr (Some b', new)"
      "isRequiredProp b' = isRequiredProp cur"
      "filter (\<lambda>r. snd r = REQUIRED_MESSAGE) new
         = (if \<not> isRequiredProp x \<and> isRequiredProp cur then [(cur, REQUIRED_MESSAGE)] else [])"
    using required_first_callback[OF assms(1) plain Cons.prems(2), of 0 "cur # rest"] by blast
  obtain final rs where ih:
      "reduce_loop p rest (Some b') [] 0 rest = Inr (final, rs)"
      "filter (\<lambda>r. snd r = REQUIRED_MESSAGE) rs = required_breaks cur rest"
    using Cons.IH[of b' cur] Cons.prems(1) cb(2) by auto
  have "reduce_loop p (cur # rest) (Some b) [] 0 (cur # rest) = Inr (final, new @ rs)"
    using cb(1) ih(1) reduce_loop_out[of p rest "Some b'" new 0 rest]
    by (simp del: reduce_loop.simps(2) add: reduce_loop_unfold)
  then show ?case using cb(3) ih(2) by simp
qed

lemma required_first_run:
  assumes "requiredFirst p" and "\<forall>d \<in> set (x # ds). \<not> is_spread d"
  shows "\<exists>rs. checkSorted p (Some (x # ds)) = Inr rs
           \<and> filter (\<lambda>r. snd r = REQUIRED_MESSAGE) rs = required_breaks x ds"
proof -
  obtain final rs where
      "reduce_loop p (x # ds) (Some x) [] 0 (x # ds) = Inr (final, rs)"
      "filter (\<lambda>r. snd r = REQUIRED_MESSAGE) rs = required_breaks x (x # ds)"
    using required_first_loop[OF assms, of x x] by auto
  then show ?thesis by (simp add: checkSorted_Some)
qed

lemma required_wins_example:
  "checkSorted (default_options\<lparr>requiredFirst := True, callbacksLast := True\<rparr>)
     (Some [property_decl 0 ''onClick'' ''isRequired'', property_decl 1 ''value'' ''string''])
   = Inr []"
  by code_simp

lemma callbacks_last_example:
  "checkSorted (default_options\<lparr>callbacksLast := True\<rparr>)
     (Some [property_decl 0 ''onClick'' ''func'', property_decl 1 ''value'' ''string'',
            property_decl 2 ''onHover'' ''func''])
   = Inr [(property_decl 0 ''onClick'' ''func'', CALLBACK_MESSAGE)]"
  by code_simp

lemma spread_example:
  "checkSorted default_options
     (Some [property_decl 0 ''b'' ''string'', spread_decl 1 ''rest'',
            property_decl 2 ''a'' ''string''])
   = Inr []"
  by code_simp

lemma ignore_case_example:
  "checkSorted (default_options\<lparr>ignoreCase := True\<rparr>)
     (Some [property_decl 0 ''Banana'' ''string'', property_decl 1 ''apple'' ''string''])
   = Inr [(property_decl 1 ''apple'' ''string'', ALPHABETICAL_MESSAGE)]"
  by code_simp

lemma case_sensitive_example:
  "checkSorted default_options
     (Some [property_decl 0 ''Banana'' ''string'', property_decl 1 ''apple'' ''string''])
   = Inr []"
  by code_simp

subsection \<open>The claims about checkSorted\<close>

text \<open>
  Claim C3, as the code has it. The reduction compares the current declaration with its
  baseline, the accumulator of the reduction, which need not be the declaration just before
  it. With \<^verbatim>\<open>callbacksLast\<close> set, in a call of the callback on a baseline \<open>prv\<close> and a
  current declaration \<open>cur\<close> that is no spread, which the required-first layer has not
  already decided (\<^verbatim>\<open>requiredFirst\<close> is off, or both are required, or neither is):
  when the key of \<open>prv\<close> matches \<^verbatim>\<open>/^on[A-Z]/\<close> and the key of \<open>cur\<close> does not, the
  callback-last message is reported on \<open>prv\<close>, the earlier node, and \<open>prv\<close> stays the
  baseline; when the key of \<open>prv\<close> does not match and the key of \<open>cur\<close> does, nothing is
  reported and \<open>cur\<close> becomes the baseline. On \<^verbatim>\<open>[onClick, value, onHover]\<close> with
  \<^verbatim>\<open>callbacksLast: true\<close> the run sends exactly one report, on \<^verbatim>\<open>onClick\<close>.
\<close>

theorem callbacks_last_layer:
  assumes "callbacksLast p"
    and "dtype cur \<noteq> ''ExperimentalSpreadProperty''" and "dtype cur \<noteq> ''SpreadElement''"
    and "\<not> requiredFirst p \<or> isRequiredProp prv = isRequiredProp cur"
  shows "(isCallbackPropName (getKey prv) \<and> \<not> isCallbackPropName (getKey cur) \<longrightarrow>
            reduce_callback p (Some prv) cur idx decls = Inr (Some prv, [(prv, CALLBACK_MESSAGE)]))
       \<and> (\<not> isCallbackPropName (getKey prv) \<and> isCallbackPropName (getKey cur) \<longrightarrow>
            reduce_callback p (Some prv) cur idx decls = Inr (Some cur, []))
       \<and> checkSorted (default_options\<lparr>callbacksLast := True\<rparr>)
            (Some [property_decl 0 ''onClick'' ''func'', property_decl 1 ''value'' ''string'',
                   property_decl 2 ''onHover'' ''func''])
          = Inr [(property_decl 0 ''onClick'' ''func'', CALLBACK_MESSAGE)]"
  using callbacks_last_step[OF assms] callbacks_last_example by simp

theorem callbacks_last_layer_witness:
  "reduce_callback (default_options\<lparr>callbacksLast := True\<rparr>)
       (Some (property_decl 0 ''onClick'' ''func'')) (property_decl 1 ''value'' ''string'') 1
       [property_decl 0 ''onClick'' ''func'', property_decl 1 ''value'' ''string'',
        property_decl 2 ''onHover'' ''func'']
     = Inr (Some (property_decl 0 ''onClick'' ''func''),
            [(property_decl 0 ''onClick'' ''func'', CALLBACK_MESSAGE)])
   \<and> reduce_callback (default_options\<lparr>callbacksLast := True\<rparr>)
       (Some (property_decl 1 ''value'' ''string'')) (property_decl 2 ''onHover'' ''func'') 2
       [property_decl 0 ''onClick'' ''func'', property_decl 1 ''value'' ''string'',
        property_decl 2 ''onHover'' ''func'']
     = Inr (Some (property_decl 2 ''onHover'' ''func''), [])"
proof -
  have on: "callbacksLast (default_options\<lparr>callbacksLast := True\<rparr>)"
    by simp
  have off: "\<not> requiredFirst (default_options\<lparr>callbacksLast := True\<rparr>)
              \<or> isRequiredProp a = isRequiredProp b" for a b
    by (simp add: default_options_def)
  have plain: "dtype (property_decl i n t) \<noteq> ''ExperimentalSpreadProperty''"
    "dtype (property_decl i n t) \<noteq> ''SpreadElement''" for i n t
    by (simp_all add: property_decl_def)
  have names: "isCallbackPropName (getKey (property_decl 0 ''onClick'' ''func''))"
    "\<not> isCallbackPropName (getKey (property_decl 1 ''value'' ''string''))"
    "isCallbackPropName (getKey (property_decl 2 ''onHover'' ''func''))"
    by (simp_all add: property_decl_def getKey_def isCallbackPropName_def is_upper_def)
  show ?thesis
    using callbacks_last_layer[where p = "default_options\<lparr>callbacksLast := True\<rparr>"
        and prv = "property_decl 0 ''onClick'' ''func''"
        and cur = "property_decl 1 ''value'' ''string''" and idx = 1
        and decls = "[property_decl 0 ''onClick'' ''func'', property_decl 1 ''value'' ''string'',
          property_decl 2 ''onHover'' ''func'']", OF on plain off]
      callbacks_last_layer[where p = "default_options\<lparr>callbacksLast := True\<rparr>"
        and prv = "property_decl 1 ''value'' ''string''"
        and cur = "property_decl 2 ''onHover'' ''func''" and idx = 2
        and decls = "[property_decl 0 ''onClick'' ''func'', property_decl 1 ''value'' ''string'',
          property_decl 2 ''onHover'' ''func'']", OF on plain off]
      names
    by blast
qed

text \<open>
  Claim C3, as stated, fails. With \<^verbatim>\<open>requiredFirst\<close> set as well, the required
  \<^verbatim>\<open>onClick\<close> followed by the non-required \<^verbatim>\<open>value\<close> is decided by the required-first
  layer and nothing is reported. And with \<^verbatim>\<open>callbacksLast\<close> alone, in
  \<^verbatim>\<open>[onZ, a, onB]\<close> the non-callback \<^verbatim>\<open>a\<close> followed by the callback \<^verbatim>\<open>onB\<close> is not accepted
  silently: \<^verbatim>\<open>onB\<close> is compared with the baseline \<^verbatim>\<open>onZ\<close>, kept at the step before, and
  reported as out of alphabetical order.
\<close>

theorem callbacks_last_not_every_pair:
  "checkSorted (default_options\<lparr>requiredFirst := True, callbacksLast := True\<rparr>)
     (Some [property_decl 0 ''onClick'' ''isRequired'', property_decl 1 ''value'' ''string''])
   = Inr []
   \<and> checkSorted (default_options\<lparr>callbacksLast := True\<rparr>)
     (Some [property_decl 0 ''onZ'' ''func'', property_decl 1 ''a'' ''string'',
            property_decl 2 ''onB'' ''func''])
   = Inr [(property_decl 0 ''onZ'' ''func'', CALLBACK_MESSAGE),
          (property_decl 2 ''onB'' ''func'', ALPHABETICAL_MESSAGE)]"
  by code_simp

text \<open>
  Claim C4. With \<^verbatim>\<open>requiredFirst\<close> set, a call of the callback on a baseline \<open>prv\<close> and a
  current declaration \<open>cur\<close> that is no spread: when \<open>prv\<close> is not required and \<open>cur\<close> is,
  the required-first message is reported on \<open>cur\<close>, the later node, and \<open>cur\<close> becomes the
  baseline; when \<open>prv\<close> is required and \<open>cur\<close> is not, nothing is reported (so no
  alphabetical comparison is made) and \<open>cur\<close> becomes the baseline; and the call reports
  the required-first message in no other case. Over a whole sequence without spreads, the
  required-first reports of the run are, in order, one report on the later declaration for
  each non-required declaration that a required one immediately follows.
\<close>

theorem required_first_layer:
  assumes "requiredFirst p"
    and "dtype cur \<noteq> ''ExperimentalSpreadProperty''" and "dtype cur \<noteq> ''SpreadElement''"
  shows "(\<not> isRequiredProp prv \<and> isRequiredProp cur \<longrightarrow>
            reduce_callback p (Some prv) cur idx decls = Inr (Some cur, [(cur, REQUIRED_MESSAGE)]))
       \<and> (isRequiredProp prv \<and> \<not> isRequiredProp cur \<longrightarrow>
            reduce_callback p (Some prv) cur idx decls = Inr (Some cur, []))
       \<and> (\<forall>b rs n. reduce_callback p (Some prv) cur idx decls = Inr (b, rs)
              \<and> (n, REQUIRED_MESSAGE) \<in> set rs
            \<longrightarrow> \<not> isRequiredProp prv \<and> isRequiredProp cur)
       \<and> ((\<forall>d \<in> set (x # ds).
              dtype d \<noteq> ''ExperimentalSpreadProperty'' \<and> dtype d \<noteq> ''SpreadElement'')
            \<longrightarrow> (\<exists>rs. checkSorted p (Some (x # ds)) = Inr rs
                  \<and> filter (\<lambda>r. snd r = REQUIRED_MESSAGE) rs = required_breaks x ds))"
proof -
  have run: "(\<forall>d \<in> set (x # ds).
              dtype d \<noteq> ''ExperimentalSpreadProperty'' \<and> dtype d \<noteq> ''SpreadElement'')
            \<longrightarrow> (\<exists>rs. checkSorted p (Some (x # ds)) = Inr rs
                  \<and> filter (\<lambda>r. snd r = REQUIRED_MESSAGE) rs = required_breaks x ds)"
    using required_first_run[OF assms(1), of x ds] by (simp add: is_spread_def)
  show ?thesis
    by (rule conjI[OF conjunct1[OF required_first_step[OF assms]]],
        rule conjI[OF conjunct1[OF conjunct2[OF required_first_step[OF assms]]]],
        rule conjI[OF conjunct2[OF conjunct2[OF required_first_step[OF assms]]]],
        rule run)
qed

theorem required_first_layer_witness:
  "reduce_callback (default_options\<lparr>requiredFirst := True\<rparr>)
       (Some (property_decl 1 ''b'' ''string'')) (property_decl 2 ''a'' ''isRequired'') 2
       [property_decl 0 ''c'' ''isRequired'', property_decl 1 ''b'' ''string'',
        property_decl 2 ''a'' ''isRequired'']
     = Inr (Some (property_decl 2 ''a'' ''isRequired''),
            [(property_decl 2 ''a'' ''isRequired'', REQUIRED_MESSAGE)])
   \<and> reduce_callback (default_options\<lparr>requiredFirst := True\<rparr>)
       (Some (property_decl 0 ''c'' ''isRequired'')) (property_decl 1 ''b'' ''string'') 1
       [property_decl 0 ''c'' ''isRequired'', property_decl 1 ''b'' ''string'',
        property_decl 2 ''a'' ''isRequired'']
     = Inr (Some (property_decl 1 ''b'' ''string''), [])
   \<and> (\<exists>rs. checkSorted (default_options\<lparr>requiredFirst := True\<rparr>)
           (Some [property_decl 0 ''c'' ''isRequired'', property_decl 1 ''b'' ''string'',
                  property_decl 2 ''a'' ''isRequired''])
         = Inr rs
       \<and> filter (\<lambda>r. snd r = REQUIRED_MESSAGE) rs
         = [(property_decl 2 ''a'' ''isRequired'', REQUIRED_MESSAGE)])"
proof -
  have on: "requiredFirst (default_options\<lparr>requiredFirst := True\<rparr>)"
    by simp
  have plain: "dtype (property_decl i n t) \<noteq> ''ExperimentalSpreadProperty''"
    "dtype (property_decl i n t) \<noteq> ''SpreadElement''" for i n t
    by (simp_all add: property_decl_def)
  have req: "isRequiredProp (property_decl i n ''isRequired'')"
    "\<not> isRequiredProp (property_decl i n ''string'')" for i n
    by (simp_all add: property_decl_def isRequiredProp_def getValueName_def)
  have breaks: "required_breaks (property_decl 0 ''c'' ''isRequired'')
      [property_decl 1 ''b'' ''string'', property_decl 2 ''a'' ''isRequired'']
      = [(property_decl 2 ''a'' ''isRequired'', REQUIRED_MESSAGE)]"
    by (simp add: req)
  have all_plain: "\<forall>d \<in> set [property_decl 0 ''c'' ''isRequired'', property_decl 1 ''b'' ''string'',
        property_decl 2 ''a'' ''isRequired''].
      dtype d \<noteq> ''ExperimentalSpreadProperty'' \<and> dtype d \<noteq> ''SpreadElement''"
    by (simp add: plain)
  note first = required_first_layer[where p = "default_options\<lparr>requiredFirst := True\<rparr>"
        and prv = "property_decl 1 ''b'' ''string''" and cur = "property_decl 2 ''a'' ''isRequired''"
        and idx = 2
        and decls = "[property_decl 0 ''c'' ''isRequired'', property_decl 1 ''b'' ''string'',
          property_decl 2 ''a'' ''isRequired'']"
        and x = "property_decl 0 ''c'' ''isRequired''"
        and ds = "[property_decl 1 ''b'' ''string'', property_decl 2 ''a'' ''isRequired'']",
        OF on plain]
  note second = required_first_layer[where p = "default_options\<lparr>requiredFirst := True\<rparr>"
        and prv = "property_decl 0 ''c'' ''isRequired''" and cur = "property_decl 1 ''b'' ''string''"
        and idx = 1
        and decls = "[property_decl 0 ''c'' ''isRequired'', property_decl 1 ''b'' ''string'',
          property_decl 2 ''a'' ''isRequired'']", OF on plain]
  have one: "reduce_callback (default_options\<lparr>requiredFirst := True\<rparr>)
       (Some (property_decl 1 ''b'' ''string'')) (property_decl 2 ''a'' ''isRequired'') 2
       [property_decl 0 ''c'' ''isRequired'', property_decl 1 ''b'' ''string'',
        property_decl 2 ''a'' ''isRequired'']
     = Inr (Some (property_decl 2 ''a'' ''isRequired''),
            [(property_decl 2 ''a'' ''isRequired'', REQUIRED_MESSAGE)])"
    using first req by blast
  have two: "reduce_callback (default_options\<lparr>requiredFirst := True\<rparr>)
       (Some (property_decl 0 ''c'' ''isRequired'')) (property_decl 1 ''b'' ''string'') 1
       [property_decl 0 ''c'' ''isRequired'', property_decl 1 ''b'' ''string'',
        property_decl 2 ''a'' ''isRequired'']
     = Inr (Some (property_decl 1 ''b'' ''string''), [])"
    using second req by blast
  have three: "\<exists>rs. checkSorted (default_options\<lparr>requiredFirst := True\<rparr>)
           (Some [property_decl 0 ''c'' ''isRequired'', property_decl 1 ''b'' ''string'',
                  property_decl 2 ''a'' ''isRequired''])
         = Inr rs
       \<and> filter (\<lambda>r. snd r = REQUIRED_MESSAGE) rs
         = [(property_decl 2 ''a'' ''isRequired'', REQUIRED_MESSAGE)]"
    using first all_plain breaks by metis
  show ?thesis using one two three by blast
qed

text \<open>
  Claim C7. A spread element makes the callback return the element after it as the next
  baseline with no report, whatever the baseline was; and the reports of a run over
  \<open>pre @ s # post\<close>, \<open>s\<close> a spread, are the reports of a run over \<open>pre\<close> followed by the
  reports of a run over \<open>post\<close> alone: no declaration after the spread is compared with one
  before it. On \<^verbatim>\<open>[b, ...rest, a]\<close> with the default options (alphabetical checking
  only) nothing is reported.
\<close>

theorem spread_resets_chain:
  assumes "dtype s = ''ExperimentalSpreadProperty'' \<or> dtype s = ''SpreadElement''"
  shows "reduce_callback p prev s idx decls = Inr (nth_opt decls (idx + 1), [])
       \<and> (\<exists>a b. checkSorted p (Some pre) = Inr a \<and> checkSorted p (Some post) = Inr b
            \<and> checkSorted p (Some (pre @ s # post)) = Inr (a @ b))
       \<and> checkSorted default_options
            (Some [property_decl 0 ''b'' ''string'', spread_decl 1 ''rest'',
                   property_decl 2 ''a'' ''string''])
          = Inr []"
proof -
  have "reduce_callback p prev s idx decls = Inr (nth_opt decls (idx + 1), [])"
    using assms by (auto simp: reduce_callback_def)
  then show ?thesis
    using spread_splits_run[OF assms, of p pre post] spread_example by simp
qed

theorem spread_resets_chain_witness:
  "checkSorted default_options
     (Some ([property_decl 0 ''b'' ''string''] @ spread_decl 1 ''rest''
            # [property_decl 2 ''a'' ''string'']))
   = Inr []
   \<and> reduce_callback default_options (Some (property_decl 0 ''b'' ''string''))
       (spread_decl 1 ''rest'') 1
       [property_decl 0 ''b'' ''string'', spread_decl 1 ''rest'', property_decl 2 ''a'' ''string'']
     = Inr (Some (property_decl 2 ''a'' ''string''), [])"
proof -
  have one: "checkSorted default_options (Some [property_decl i k t]) = Inr []" for i k t
    by (simp add: checkSorted_def reduce_callback_def Let_def js_lt_irrefl
        property_decl_def default_options_def)
  have s: "dtype (spread_decl 1 ''rest'') = ''ExperimentalSpreadProperty''
            \<or> dtype (spread_decl 1 ''rest'') = ''SpreadElement''"
    by (simp add: spread_decl_def)
  show ?thesis
    using spread_resets_chain[OF s, of default_options "Some (property_decl 0 ''b'' ''string'')" 1
        "[property_decl 0 ''b'' ''string'', spread_decl 1 ''rest'', property_decl 2 ''a'' ''string'']"
        "[property_decl 0 ''b'' ''string'']" "[property_decl 2 ''a'' ''string'']"]
    by (auto simp: one)
qed

text \<open>
  Claim C9, as the code has it. The reduction compares the current declaration with its
  baseline. With alphabetical checking enabled, in a call of the callback on a baseline
  \<open>prv\<close> and a current declaration \<open>cur\<close> that is no spread, which neither the
  required-first nor the callback-last layer has already decided, and whose keys are both
  strings: the keys are compared as they are, by code units, or lower-cased first when
  \<^verbatim>\<open>ignoreCase\<close> is set; the alphabetical message is reported on \<open>cur\<close>, with \<open>prv\<close> kept as
  the baseline, exactly when the key of \<open>cur\<close> is strictly smaller than the key of \<open>prv\<close>;
  otherwise nothing is reported and \<open>cur\<close> becomes the baseline. On \<^verbatim>\<open>[Banana, apple]\<close> the
  run reports \<^verbatim>\<open>apple\<close> with \<^verbatim>\<open>ignoreCase: true\<close> and nothing with the default options.
\<close>

theorem alphabetical_layer:
  assumes "\<not> noSortAlphabetically p"
    and "dtype cur \<noteq> ''ExperimentalSpreadProperty''" and "dtype cur \<noteq> ''SpreadElement''"
    and "\<not> requiredFirst p \<or> isRequiredProp prv = isRequiredProp cur"
    and "\<not> callbacksLast p \<or> isCallbackPropName (getKey prv) = isCallbackPropName (getKey cur)"
    and "is_string (getKey prv)" and "is_string (getKey cur)"
  shows "reduce_callback p (Some prv) cur idx decls =
           (if js_string_lt
                 (if ignoreCase p then toLowerCase (getKey cur) else ToString (getKey cur))
                 (if ignoreCase p then toLowerCase (getKey prv) else ToString (getKey prv))
            then Inr (Some prv, [(cur, ALPHABETICAL_MESSAGE)])
            else Inr (Some cur, []))
       \<and> checkSorted (default_options\<lparr>ignoreCase := True\<rparr>)
            (Some [property_decl 0 ''Banana'' ''string'', property_decl 1 ''apple'' ''string''])
          = Inr [(property_decl 1 ''apple'' ''string'', ALPHABETICAL_MESSAGE)]
       \<and> checkSorted default_options
            (Some [property_decl 0 ''Banana'' ''string'', property_decl 1 ''apple'' ''string''])
          = Inr []"
  using alphabetical_step[OF assms(1-5), of idx decls] js_lt_strings[OF assms(7,6)]
    ignore_case_example case_sensitive_example
  by simp

theorem alphabetical_layer_witness:
  "reduce_callback (default_options\<lparr>ignoreCase := True\<rparr>)
       (Some (property_decl 0 ''Banana'' ''string'')) (property_decl 1 ''apple'' ''string'') 1
       [property_decl 0 ''Banana'' ''string'', property_decl 1 ''apple'' ''string'']
     = Inr (Some (property_decl 0 ''Banana'' ''string''),
            [(property_decl 1 ''apple'' ''string'', ALPHABETICAL_MESSAGE)])
   \<and> reduce_callback default_options
       (Some (property_decl 0 ''Banana'' ''string'')) (property_decl 1 ''apple'' ''string'') 1
       [property_decl 0 ''Banana'' ''string'', property_decl 1 ''apple'' ''string'']
     = Inr (Some (property_decl 1 ''apple'' ''string''), [])"
proof -
  have lower: "js_string_lt (toLowerCase (JString ''apple'' NaN)) (toLowerCase (JString ''Banana'' NaN))"
    by code_simp
  have plain: "\<not> js_string_lt ''apple'' ''Banana''"
    by code_simp
  have keys: "getKey (property_decl i n t) = JString n NaN" for i n t
    by (simp add: property_decl_def getKey_def)
  have shape: "dtype (property_decl i n t) \<noteq> ''ExperimentalSpreadProperty''"
    "dtype (property_decl i n t) \<noteq> ''SpreadElement''" for i n t
    by (simp_all add: property_decl_def)
  have same: "isRequiredProp (property_decl 0 ''Banana'' ''string'')
               = isRequiredProp (property_decl 1 ''apple'' ''string'')"
    by (simp add: property_decl_def isRequiredProp_def getValueName_def)
  have l1: "\<not> requiredFirst q \<or> isRequiredProp (property_decl 0 ''Banana'' ''string'')
               = isRequiredProp (property_decl 1 ''apple'' ''string'')" for q
    using same by simp
  have l2: "\<not> callbacksLast (default_options\<lparr>ignoreCase := True\<rparr>) \<or> x = y"
    "\<not> callbacksLast default_options \<or> x = y" for x y :: bool
    by (simp_all add: default_options_def)
  have strings: "is_string (getKey (property_decl i n t))" for i n t
    by (simp add: keys)
  have a1: "\<not> noSortAlphabetically (default_options\<lparr>ignoreCase := True\<rparr>)"
    "\<not> noSortAlphabetically default_options"
    by (simp_all add: default_options_def)
  have i1: "ignoreCase (default_options\<lparr>ignoreCase := True\<rparr>)" "\<not> ignoreCase default_options"
    by (simp_all add: default_options_def)
  show ?thesis
    using alphabetical_layer[where p = "default_options\<lparr>ignoreCase := True\<rparr>"
        and prv = "property_decl 0 ''Banana'' ''string''"
        and cur = "property_decl 1 ''apple'' ''string''" and idx = 1
        and decls = "[property_decl 0 ''Banana'' ''string'', property_decl 1 ''apple'' ''string'']",
        OF a1(1) shape l1 l2(1) strings strings]
      alphabetical_layer[where p = default_options
        and prv = "property_decl 0 ''Banana'' ''string''"
        and cur = "property_decl 1 ''apple'' ''string''" and idx = 1
        and decls = "[property_decl 0 ''Banana'' ''string'', property_decl 1 ''apple'' ''string'']",
        OF a1(2) shape l1 l2(2) strings strings]
      lower plain i1
    by (simp add: keys)
qed

text \<open>
  Claim C9, as stated, fails. With \<^verbatim>\<open>requiredFirst\<close> set, the required \<^verbatim>\<open>b\<close> followed by
  the non-required \<^verbatim>\<open>a\<close> is decided by the required-first layer: nothing is reported though
  \<^verbatim>\<open>a\<close> sorts before \<^verbatim>\<open>b\<close>. With \<^verbatim>\<open>callbacksLast\<close> set, \<^verbatim>\<open>z\<close> followed by \<^verbatim>\<open>onA\<close> is
  decided by the callback-last layer in the same way. And with the default options the
  numeric keys \<^verbatim>\<open>2\<close> and \<^verbatim>\<open>10\<close> are compared as numbers: nothing is reported though the
  string \<^verbatim>\<open>10\<close> sorts before the string \<^verbatim>\<open>2\<close>.
\<close>

theorem alphabetical_not_every_pair:
  "checkSorted (default_options\<lparr>requiredFirst := True\<rparr>)
     (Some [property_decl 0 ''b'' ''isRequired'', property_decl 1 ''a'' ''string''])
   = Inr []
   \<and> js_string_lt ''a'' ''b''
   \<and> checkSorted (default_options\<lparr>callbacksLast := True\<rparr>)
     (Some [property_decl 0 ''z'' ''string'', property_decl 1 ''onA'' ''func''])
   = Inr []
   \<and> js_string_lt ''onA'' ''z''
   \<and> checkSorted default_options
     (Some [numeric_decl 0 2 ''2'' ''string'', numeric_decl 1 10 ''10'' ''string''])
   = Inr []
   \<and> js_string_lt ''10'' ''2''"
  by code_simp

section \<open>Properties of stripQuotes\<close>

lemma replace_quotes_inner:
  "replace_quotes False s = (if s \<noteq> [] \<and> last s = CHR 0x27 then butlast s else s)"
  by (induction s) auto

lemma stripQuotes_Cons:
  "stripQuotes (c # cs) =
     (if c = CHR 0x27 then replace_quotes False cs else c # replace_quotes False cs)"
  by (simp add: stripQuotes_def)

lemma stripQuotes_unchanged_iff:
  "stripQuotes s = s \<longleftrightarrow> s = [] \<or> (hd s \<noteq> CHR 0x27 \<and> last s \<noteq> CHR 0x27)"
proof (cases s)
  case Nil
  then show ?thesis by (simp add: stripQuotes_def)
next
  case (Cons c cs)
  have len: "length (replace_quotes False cs) \<le> length cs"
    by (simp add: replace_quotes_inner)
  have neq: "cs \<noteq> [] \<Longrightarrow> butlast cs \<noteq> cs"
    by (metis length_butlast diff_less length_greater_0_conv less_numeral_extra(1) nat_neq_iff)
  show ?thesis
  proof (cases "c = CHR 0x27")
    case True
    have "replace_quotes False cs \<noteq> c # cs"
      using len by (metis impossible_Cons)
    then show ?thesis using Cons True by (simp add: stripQuotes_Cons)
  next
    case False
    then show ?thesis using Cons neq by (auto simp: stripQuotes_Cons replace_quotes_inner)
  qed
qed

lemma stripQuotes_pair: "stripQuotes (CHR 0x27 # s @ [CHR 0x27]) = s"
  by (simp add: stripQuotes_Cons replace_quotes_inner)

lemma stripQuotes_leading:
  "s \<noteq> [] \<Longrightarrow> last s \<noteq> CHR 0x27 \<Longrightarrow> stripQuotes (CHR 0x27 # s) = s"
  by (simp add: stripQuotes_Cons replace_quotes_inner)

lemma stripQuotes_trailing:
  "s \<noteq> [] \<Longrightarrow> hd s \<noteq> CHR 0x27 \<Longrightarrow> stripQuotes (s @ [CHR 0x27]) = s"
  by (cases s) (simp_all add: stripQuotes_Cons replace_quotes_inner)

text \<open>
  Claim C10, as the code has it. \<^verbatim>\<open>stripQuotes\<close> removes a leading single quote when the
  string has one and a trailing single quote when it has one, each whether or not the other
  is there: a matched pair is removed, a leading quote alone is removed, a trailing quote
  alone is removed, and the string is returned unchanged exactly when it neither begins nor
  ends with a single quote.
\<close>

theorem stripQuotes_each_end:
  "stripQuotes (CHR 0x27 # s @ [CHR 0x27]) = s
   \<and> (s \<noteq> [] \<and> last s \<noteq> CHR 0x27 \<longrightarrow> stripQuotes (CHR 0x27 # s) = s)
   \<and> (s \<noteq> [] \<and> hd s \<noteq> CHR 0x27 \<longrightarrow> stripQuotes (s @ [CHR 0x27]) = s)
   \<and> (stripQuotes s = s \<longleftrightarrow> s = [] \<or> (hd s \<noteq> CHR 0x27 \<and> last s \<noteq> CHR 0x27))"
  using stripQuotes_pair stripQuotes_leading stripQuotes_trailing stripQuotes_unchanged_iff
  by blast

theorem stripQuotes_each_end_witness:
  "stripQuotes (CHR 0x27 # ''abc'' @ [CHR 0x27]) = ''abc''
   \<and> stripQuotes (CHR 0x27 # ''abc'') = ''abc''
   \<and> stripQuotes (''abc'' @ [CHR 0x27]) = ''abc''
   \<and> stripQuotes ''abc'' = ''abc''"
  using stripQuotes_each_end[of "''abc''"] by simp

text \<open>
  Claim C10, as stated, fails: a string with a leading single quote and no trailing one is
  not returned unchanged.
\<close>

theorem stripQuotes_unmatched_changed:
  "stripQuotes (CHR 0x27 # ''abc'') \<noteq> CHR 0x27 # ''abc''"
  by (simp add: stripQuotes_def)

section \<open>Properties of findReturnStatement\<close>

lemma nth_opt_take: "i < k \<Longrightarrow> nth_opt (take k xs) i = nth_opt xs i"
proof (induction xs i arbitrary: k rule: nth_opt.induct)
  case (1 i)
  show ?case by simp
next
  case (2 x xs)
  then show ?case by (cases k) simp_all
next
  case (3 x xs i)
  then show ?case by (cases k) simp_all
qed

lemma nth_opt_snoc: "nth_opt (xs @ [x]) (length xs) = Some x"
  by (induction xs) simp_all

lemma nth_opt_last: "xs \<noteq> [] \<Longrightarrow> nth_opt xs (length xs - Suc 0) = Some (last xs)"
  using nth_opt_snoc[of "butlast xs" "last xs"] by simp

text \<open>An iteration reads the array only below its index.\<close>

lemma frs_loop_take:
  "findReturnStatement_loopNodes nodes k = findReturnStatement_loopNodes (take k nodes) k"
proof (induction k arbitrary: nodes)
  case 0
  show ?case by simp
next
  case (Suc i)
  have a: "findReturnStatement_loopNodes nodes i = findReturnStatement_loopNodes (take i nodes) i"
    by (rule Suc.IH)
  have b: "findReturnStatement_loopNodes (take (Suc i) nodes) i
             = findReturnStatement_loopNodes (take i nodes) i"
    using Suc.IH[of "take (Suc i) nodes"] by (simp add: min_def)
  have c: "nth_opt (take (Suc i) nodes) i = nth_opt nodes i"
    by (rule nth_opt_take) simp
  show ?case
    by (simp only: findReturnStatement_loopNodes.simps c a b)
qed

lemma frs_loop_snoc:
  "findReturnStatement_loopNodes (nodes @ [n]) (Suc (length nodes)) =
     (if ntype n = ''ReturnStatement'' then Inr (Some n)
      else case n of
             SwitchStatement sid ps cases \<Rightarrow>
               (if cases = [] then findReturnStatement_loopNodes nodes (length nodes)
                else case last cases of
                       Some consequent \<Rightarrow>
                         findReturnStatement_loopNodes consequent (length consequent)
                     | None \<Rightarrow> Inl TypeError)
           | _ \<Rightarrow> findReturnStatement_loopNodes nodes (length nodes))"
proof -
  have shorter: "findReturnStatement_loopNodes (nodes @ [m]) (length nodes)
                = findReturnStatement_loopNodes nodes (length nodes)" for m
    using frs_loop_take[of "nodes @ [m]" "length nodes"] by simp
  show ?thesis
    by (auto simp: nth_opt_snoc shorter nth_opt_last split: node.splits option.splits)
qed

lemma frs_loop_skip:
  assumes "\<forall>s \<in> set post. ntype s \<noteq> ''ReturnStatement'' \<and> ntype s \<noteq> ''SwitchStatement''"
  shows "findReturnStatement_loopNodes (pre @ post) (length (pre @ post))
           = findReturnStatement_loopNodes pre (length pre)"
  using assms
proof (induction post rule: rev_induct)
  case Nil
  show ?case by simp
next
  case (snoc s post)
  have "findReturnStatement_loopNodes ((pre @ post) @ [s]) (Suc (length (pre @ post)))
          = findReturnStatement_loopNodes (pre @ post) (length (pre @ post))"
    using snoc.prems by (simp only: frs_loop_snoc) (auto split: node.splits)
  then show ?case using snoc by simp
qed

lemma frs_loop_first_return:
  assumes "ntype r = ''ReturnStatement''"
    and "\<forall>s \<in> set post. ntype s \<noteq> ''ReturnStatement'' \<and> ntype s \<noteq> ''SwitchStatement''"
  shows "findReturnStatement_loopNodes (pre @ r # post) (length (pre @ r # post)) = Inr (Some r)"
proof -
  have "findReturnStatement_loopNodes ((pre @ [r]) @ post) (length ((pre @ [r]) @ post))
          = findReturnStatement_loopNodes (pre @ [r]) (length (pre @ [r]))"
    using assms(2) by (rule frs_loop_skip)
  moreover have "findReturnStatement_loopNodes (pre @ [r]) (Suc (length pre)) = Inr (Some r)"
    using assms(1) by (simp only: frs_loop_snoc) simp
  ultimately show ?thesis by simp
qed

lemma frs_loop_trailing_switch:
  "findReturnStatement_loopNodes (pre @ [SwitchStatement sid ps (cases @ [Some consequent])])
       (length (pre @ [SwitchStatement sid ps (cases @ [Some consequent])]))
     = findReturnStatement_loopNodes consequent (length consequent)"
  using frs_loop_snoc[of pre "SwitchStatement sid ps (cases @ [Some consequent])"]
  by simp

lemma frs_loop_switch:
  assumes "\<forall>s \<in> set post. ntype s \<noteq> ''ReturnStatement'' \<and> ntype s \<noteq> ''SwitchStatement''"
  shows "findReturnStatement_loopNodes
           (pre @ SwitchStatement sid ps (cases @ [Some consequent]) # post)
           (length (pre @ SwitchStatement sid ps (cases @ [Some consequent]) # post))
         = findReturnStatement_loopNodes consequent (length consequent)"
proof -
  have "findReturnStatement_loopNodes
          ((pre @ [SwitchStatement sid ps (cases @ [Some consequent])]) @ post)
          (length ((pre @ [SwitchStatement sid ps (cases @ [Some consequent])]) @ post))
        = findReturnStatement_loopNodes
            (pre @ [SwitchStatement sid ps (cases @ [Some consequent])])
            (length (pre @ [SwitchStatement sid ps (cases @ [Some consequent])]))"
    using assms by (rule frs_loop_skip)
  then show ?thesis
    using frs_loop_trailing_switch[of pre sid ps cases consequent] by simp
qed

lemma frs_loop_exhausts:
  assumes "\<forall>s \<in> set nodes. ntype s \<noteq> ''ReturnStatement'' \<and> ntype s \<noteq> ''SwitchStatement''"
  shows "findReturnStatement_loopNodes nodes (length nodes) = Inr None"
  using frs_loop_skip[of nodes "[]"] assms by simp

lemma findReturnStatement_function:
  "findReturnStatement (Function i ps k None (BlockStatement j qs stmts))
     = findReturnStatement_loopNodes stmts (length stmts)"
  by (simp add: findReturnStatement_def lacks_statements_def)

lemma findReturnStatement_no_body:
  "value_of node = None \<Longrightarrow> body_of node = Undefined \<Longrightarrow> findReturnStatement node = Inr None"
  by (simp add: findReturnStatement_def lacks_statements_def)


lemma trailing_switch_example: "findReturnStatement switch_function = Inr None"
  by code_simp


text \<open>
  Claim C6, as the code has it. On a function whose body is a block,
  \<^verbatim>\<open>findReturnStatement\<close> is the scan of the statements of the block from the last one
  backward, and the first statement the scan meets that is a return or a switch decides
  (for a switch, one with a last case, and that case with its consequent list, as every
  parsed case has). A return statement that only statements other
  than returns and switches follow is the result. A switch statement with a last case that
  only statements other than returns and switches follow, be it the last statement or not,
  makes the result the result of the same scan over the consequent of its last case,
  whatever the other cases and the statements before the switch are. The result is
  \<^verbatim>\<open>false\<close> when no statement is a return or a switch. \<^verbatim>\<open>findReturnStatement\<close> is
  \<^verbatim>\<open>false\<close> on a node without a body; and on a function that ends in a switch of three
  cases, a return in the first and none in the last, it is \<^verbatim>\<open>false\<close>.
\<close>

theorem findReturnStatement_scan:
  "findReturnStatement (Function i ps k None (BlockStatement j qs stmts))
     = findReturnStatement_loopNodes stmts (length stmts)
   \<and> (ntype r = ''ReturnStatement''
      \<and> (\<forall>s \<in> set post. ntype s \<noteq> ''ReturnStatement'' \<and> ntype s \<noteq> ''SwitchStatement'')
     \<longrightarrow> findReturnStatement_loopNodes (pre @ r # post) (length (pre @ r # post))
          = Inr (Some r))
   \<and> ((\<forall>s \<in> set post. ntype s \<noteq> ''ReturnStatement'' \<and> ntype s \<noteq> ''SwitchStatement'')
     \<longrightarrow> findReturnStatement_loopNodes
           (pre @ SwitchStatement sid sps (cases @ [Some consequent]) # post)
           (length (pre @ SwitchStatement sid sps (cases @ [Some consequent]) # post))
         = findReturnStatement_loopNodes consequent (length consequent))
   \<and> ((\<forall>s \<in> set nodes. ntype s \<noteq> ''ReturnStatement'' \<and> ntype s \<noteq> ''SwitchStatement'')
     \<longrightarrow> findReturnStatement_loopNodes nodes (length nodes) = Inr None)
   \<and> (value_of node = None \<and> body_of node = Undefined \<longrightarrow> findReturnStatement node = Inr None)
   \<and> findReturnStatement switch_function = Inr None"
  using frs_loop_first_return[of r post pre]
    frs_loop_switch[of post pre sid sps cases consequent]
    frs_loop_exhausts[of nodes] findReturnStatement_no_body[of node] trailing_switch_example
    findReturnStatement_function[of i ps k j qs stmts]
  by blast

theorem findReturnStatement_scan_witness:
  "findReturnStatement (Function 1 [(0, ''Program'')] FunctionDeclaration None
       (BlockStatement 2 [(1, ''FunctionDeclaration''), (0, ''Program'')]
          ([case_foo] @ case_return # [case_bar])))
     = Inr (Some case_return)
   \<and> findReturnStatement_loopNodes
       ([early_return] @ SwitchStatement 4 body_chain ([Some [case_return]] @ [Some [case_foo]])
          # [last_call])
       (length ([early_return]
          @ SwitchStatement 4 body_chain ([Some [case_return]] @ [Some [case_foo]]) # [last_call]))
     = Inr None
   \<and> findReturnStatement_loopNodes [case_foo, case_bar] (length [case_foo, case_bar]) = Inr None
   \<and> findReturnStatement case_return = Inr None"
proof -
  have tail: "\<forall>s \<in> set [case_bar]. ntype s \<noteq> ''ReturnStatement'' \<and> ntype s \<noteq> ''SwitchStatement''"
    "\<forall>s \<in> set [last_call]. ntype s \<noteq> ''ReturnStatement'' \<and> ntype s \<noteq> ''SwitchStatement''"
    "\<forall>s \<in> set [case_foo, case_bar].
       ntype s \<noteq> ''ReturnStatement'' \<and> ntype s \<noteq> ''SwitchStatement''"
    by (simp_all add: case_foo_def case_bar_def last_call_def)
  have ret: "ntype case_return = ''ReturnStatement''"
    "value_of case_return = None" "body_of case_return = Undefined"
    by (simp_all add: case_return_def)
  have inner: "findReturnStatement_loopNodes [case_foo] (length [case_foo]) = Inr None"
    by code_simp
  note first = findReturnStatement_scan[where r = case_return and post = "[case_bar]"
        and pre = "[case_foo]" and i = 1 and ps = "[(0, ''Program'')]"
        and k = FunctionDeclaration and j = 2
        and qs = "[(1, ''FunctionDeclaration''), (0, ''Program'')]"
        and stmts = "[case_foo] @ case_return # [case_bar]"
        and nodes = "[case_foo, case_bar]" and node = case_return]
  note second = findReturnStatement_scan[where post = "[last_call]" and pre = "[early_return]"
        and sid = 4 and sps = body_chain and cases = "[Some [case_return]]"
        and consequent = "[case_foo]"]
  have a: "findReturnStatement (Function 1 [(0, ''Program'')] FunctionDeclaration None
       (BlockStatement 2 [(1, ''FunctionDeclaration''), (0, ''Program'')]
          ([case_foo] @ case_return # [case_bar])))
     = findReturnStatement_loopNodes ([case_foo] @ case_return # [case_bar])
         (length ([case_foo] @ case_return # [case_bar]))"
    by (rule conjunct1[OF first])
  have b: "findReturnStatement_loopNodes ([case_foo] @ case_return # [case_bar])
         (length ([case_foo] @ case_return # [case_bar])) = Inr (Some case_return)"
    by (rule mp[OF conjunct1[OF conjunct2[OF first]]]) (rule conjI[OF ret(1) tail(1)])
  have c: "findReturnStatement_loopNodes
       ([early_return] @ SwitchStatement 4 body_chain ([Some [case_return]] @ [Some [case_foo]])
          # [last_call])
       (length ([early_return]
          @ SwitchStatement 4 body_chain ([Some [case_return]] @ [Some [case_foo]]) # [last_call]))
     = findReturnStatement_loopNodes [case_foo] (length [case_foo])"
    by (rule mp[OF conjunct1[OF conjunct2[OF conjunct2[OF second]]]]) (rule tail(2))
  have d: "findReturnStatement_loopNodes [case_foo, case_bar] (length [case_foo, case_bar])
             = Inr None"
    by (rule mp[OF conjunct1[OF conjunct2[OF conjunct2[OF conjunct2[OF first]]]]])
       (rule tail(3))
  have e: "findReturnStatement case_return = Inr None"
    by (rule mp[OF conjunct1[OF conjunct2[OF conjunct2[OF conjunct2[OF conjunct2[OF first]]]]]])
       (rule conjI[OF ret(2) ret(3)])
  show ?thesis
    by (rule conjI, simp only: a b, rule conjI, simp only: c inner, rule conjI, rule d, rule e)
qed

text \<open>
  Claim C6, as stated, fails. In
  \<^verbatim>\<open>function k(x) { return 0; switch (x) { case 1: foo(); } bar(); }\<close> the last statement is
  no switch and the only return statement of the body is the first one met on a scan of the
  statements from the end; yet the result is \<^verbatim>\<open>false\<close>: the switch in the middle, met
  before the return, takes the scan over.
\<close>

theorem findReturnStatement_middle_switch:
  "findReturnStatement middle_switch_function = Inr None"
  by code_simp

section \<open>Properties of findJSXReturnStatement\<close>

lemma findJSXReturnStatement_array:
  "findJSXReturnStatement node scopes = Inr v \<Longrightarrow> \<exists>xs. v = JArr xs"
  by (auto simp: findJSXReturnStatement_def Let_def split: if_splits sum.splits)

lemma findJSXReturnStatement_never_false: "findJSXReturnStatement node scopes \<noteq> Inr JFalse"
  using findJSXReturnStatement_array by blast

text \<open>
  A return statement, a yield expression or a function handed to \<^verbatim>\<open>loopNodes\<close> is returned
  only when the walk along its parents reaches the target before any other function.
\<close>

lemma loopNodes_walk:
  assumes "ntype bnode = ''ReturnStatement'' \<or> ntype bnode = ''YieldExpression''
           \<or> isFunctionType (ntype bnode)"
  shows "loopNodes node bnode =
           (if walk node ((nid bnode, ntype bnode) # nparent bnode) = Accepted
            then JNode bnode else JFalse)"
proof (cases "walk node ((nid bnode, ntype bnode) # nparent bnode) = Exhausted")
  case False
  then show ?thesis using assms by (subst loopNodes.simps) simp
next
  case True
  have plain: "\<not> isSupportedBodyType (ntype bnode)"
    using assms by (auto simp: isSupportedBodyType_def isFunctionType_def)
  show ?thesis
    using True assms plain
    by (subst loopNodes.simps) (cases bnode; auto simp: isFunctionType_def)
qed

text \<open>
  On \<^verbatim>\<open>function f() { return function g() { return 1; } }\<close> the return statement of \<^verbatim>\<open>g\<close>
  is rejected: the result holds the return statement of \<^verbatim>\<open>f\<close> and a \<^verbatim>\<open>false\<close>.
\<close>

lemma nested_return_example:
  "findJSXReturnStatement outer_function nested_return_scopes
     = Inr (JArr [JNode outer_return, JFalse])"
  by code_simp

text \<open>
  Claim C1, on the code. For \<^verbatim>\<open>function f() {}\<close> no scope contributes a candidate, and
  the result is the empty array: an empty \<^verbatim>\<open>bodyNodes\<close> is truthy, so the final
  \<^verbatim>\<open>return false\<close> is not reached.
\<close>

theorem no_candidates_gives_empty_array:
  "findJSXReturnStatement empty_function empty_function_scopes = Inr (JArr [])"
  by code_simp

text \<open>
  Claim C2, on the code. Resolving the outer function of
  \<^verbatim>\<open>function* f() { function* g() { yield 1; } }\<close> returns the yield expression of the
  inner function, whose parent walk meets \<^verbatim>\<open>g\<close> before \<^verbatim>\<open>f\<close>: the expression of an
  expression statement is returned without the walk.
\<close>

theorem inner_yield_is_returned:
  "findJSXReturnStatement outer_generator generator_scopes = Inr (JArr [JNode inner_yield])
   \<and> walk outer_generator ((nid inner_yield, ntype inner_yield) # nparent inner_yield) = Rejected"
  by code_simp

lemma loopNodes_switch:
  "loopNodes node (SwitchStatement i ps cases) =
     JArr (filter truthy (flatMap (map
            (\<lambda>switchCase. case switchCase of
                 Some consequent \<Rightarrow>
                   if length consequent \<noteq> 0
                   then JArr (flatMap (map (loopNodes node) consequent))
                   else JFalse
               | None \<Rightarrow> JFalse)
            cases)))"
  by (subst loopNodes.simps) (simp add: isFunctionType_def)

lemma flatMap_Cons: "flatMap (x # xs) = flatMap [x] @ flatMap xs"
  by (cases x) simp_all

lemma filter_flatMap_concat:
  assumes "\<And>x. x \<in> set xs \<Longrightarrow> filter truthy (flatMap [G x]) = H x"
  shows "filter truthy (flatMap (map G xs)) = concat (map H xs)"
  using assms
proof (induction xs)
  case Nil
  show ?case by simp
next
  case (Cons x xs)
  have "flatMap (map G (x # xs)) = flatMap [G x] @ flatMap (map G xs)"
    using flatMap_Cons[of "G x" "map G xs"] by simp
  then show ?case using Cons by simp
qed


text \<open>
  Claim C8. The reduction of a switch statement is the concatenation, case by case and in
  order, of what each case contributes: a case with a consequent contributes the reductions
  of its own statements, flattened, the falsy ones dropped; a case with an empty consequent
  or with none contributes nothing, so such a case can be removed without changing the
  result.
\<close>

theorem switch_cases_independent:
  "loopNodes node (SwitchStatement i ps cases) =
     JArr (concat (map
       (\<lambda>switchCase. case switchCase of
            None \<Rightarrow> []
          | Some consequent \<Rightarrow> filter truthy (flatMap (map (loopNodes node) consequent)))
       cases))
   \<and> loopNodes node (SwitchStatement i ps (before @ Some [] # after))
       = loopNodes node (SwitchStatement i ps (before @ after))
   \<and> loopNodes node (SwitchStatement i ps (before @ None # after))
       = loopNodes node (SwitchStatement i ps (before @ after))"
proof -
  have form: "loopNodes node (SwitchStatement i ps cs) =
     JArr (concat (map
       (\<lambda>switchCase. case switchCase of
            None \<Rightarrow> []
          | Some consequent \<Rightarrow> filter truthy (flatMap (map (loopNodes node) consequent)))
       cs))" for cs
    unfolding loopNodes_switch
    by (simp, rule filter_flatMap_concat) (simp split: option.splits)
  show ?thesis
    by (simp add: form)
qed

theorem switch_cases_independent_witness:
  "loopNodes switch_function
     (SwitchStatement 3 (tl switch_chain) ([Some [case_return]] @ Some [] # [Some [case_foo]]))
   = loopNodes switch_function
       (SwitchStatement 3 (tl switch_chain) ([Some [case_return]] @ [Some [case_foo]]))
   \<and> loopNodes switch_function
     (SwitchStatement 3 (tl switch_chain) ([Some [case_return]] @ None # [Some [case_foo]]))
   = loopNodes switch_function
       (SwitchStatement 3 (tl switch_chain) ([Some [case_return]] @ [Some [case_foo]]))"
  using switch_cases_independent[of switch_function 3 "tl switch_chain"
      "[Some [case_return]] @ [Some [case_foo]]" "[Some [case_return]]" "[Some [case_foo]]"]
  by simp

end
